theory Spec2Isabelle
  imports Complex_Main "HOL-Library.AList"
begin

section \<open>Data loading and sampling of PINNICLE (modeldata/data.py)\<close>

text \<open>
  A shallow embedding of \<^verbatim>\<open>src/PINNICLE/modeldata/data.py\<close>: the registry of data
  classes (\<^verbatim>\<open>DataBase\<close>), the loader of ISSM models (\<^verbatim>\<open>ISSMmdData\<close>) and the
  manager of all loaders (\<^verbatim>\<open>Data\<close>).

  Conventions of the embedding.
  \<^item> A Python \<^verbatim>\<open>dict\<close> is an association list with pairwise distinct keys, in insertion
    order: \<open>map_of d k\<close> reads \<^verbatim>\<open>d[k]\<close>, \<open>AList.update k v d\<close> is \<^verbatim>\<open>d[k] = v\<close>
    (it replaces the value in place or appends a new key at the end), and a
    \<^verbatim>\<open>for k in d\<close> loop runs over the list from left to right.
  \<^item> A one-dimensional numpy array of floats is a \<open>real list\<close>: the arithmetic is that of
    the real numbers, so rounding, infinities and NaN are outside the model.
  \<^item> The two-column array of coordinates \<^verbatim>\<open>X[k]\<close> is a list of pairs \<open>(x, y)\<close>, one per
    row; the one-column array \<^verbatim>\<open>sol[k]\<close> is the list of its rows.
  \<^item> Every \<^verbatim>\<open>raise\<close> is a value: a method that mutates \<^verbatim>\<open>self\<close> returns an \<open>outcome\<close>,
    which carries the state reached when the method returned or raised.
\<close>

subsection \<open>Errors and outcomes\<close>

datatype error =
    KeyError string
  | IndexError
  | ValueError
  | TypeError
  | OSError

datatype 's outcome = Done 's | Raised error 's

fun outcome_state :: "'s outcome \<Rightarrow> 's" where
  "outcome_state (Done s) = s"
| "outcome_state (Raised e s) = s"

fun map_outcome :: "('s \<Rightarrow> 't) \<Rightarrow> 's outcome \<Rightarrow> 't outcome" where
  "map_outcome f (Done s) = Done (f s)"
| "map_outcome f (Raised e s) = Raised e (f s)"

text \<open>A block of statements: they run in order, and the first one that raises ends the block.\<close>

fun run :: "('s \<Rightarrow> 's outcome) list \<Rightarrow> 's \<Rightarrow> 's outcome" where
  "run [] s = Done s"
| "run (c # cs) s = (case c s of Done s' \<Rightarrow> run cs s' | Raised e s' \<Rightarrow> Raised e s')"

subsection \<open>Dictionaries and arrays\<close>

type_synonym array = "real list"

text \<open>\<^verbatim>\<open>d[k]\<close> as an expression: a missing key raises \<^verbatim>\<open>KeyError\<close>.\<close>

definition getitem :: "(string \<times> 'v) list \<Rightarrow> string \<Rightarrow> error + 'v" where
  "getitem d k = (case map_of d k of None \<Rightarrow> Inl (KeyError k) | Some v \<Rightarrow> Inr v)"

text \<open>\<^verbatim>\<open>d[a][b]\<close> on a dictionary of dictionaries.\<close>

definition getitem2 :: "(string \<times> (string \<times> 'v) list) list \<Rightarrow> string \<Rightarrow> string \<Rightarrow> error + 'v" where
  "getitem2 d a b = (case getitem d a of Inl e \<Rightarrow> Inl e | Inr g \<Rightarrow> getitem g b)"

text \<open>
  \<^verbatim>\<open>np.asarray(b).nonzero()\<close> on a one-dimensional boolean array: the indices of the true
  entries, in increasing order.
\<close>

definition nonzero :: "bool list \<Rightarrow> nat list" where
  "nonzero b = filter (\<lambda>i. b ! i) [0..<length b]"

text \<open>
  \<^verbatim>\<open>a[idx]\<close> with an array of non-negative indices: the entries at these indices, in the
  order of \<open>idx\<close>; an index beyond the array raises \<^verbatim>\<open>IndexError\<close>.
\<close>

definition take_idx :: "'a list \<Rightarrow> nat list \<Rightarrow> error + 'a list" where
  "take_idx a idx =
     (if list_all (\<lambda>i. i < length a) idx then Inr (map (\<lambda>i. a ! i) idx) else Inl IndexError)"

text \<open>
  \<^verbatim>\<open>a + b\<close> on one-dimensional arrays, with numpy's broadcasting: equal lengths add
  element by element, an array of length one is added to every element of the other, and
  any other pair of lengths raises \<^verbatim>\<open>ValueError\<close>.
\<close>

definition np_add :: "array \<Rightarrow> array \<Rightarrow> error + array" where
  "np_add a b =
     (if length a = length b then Inr (map2 (+) a b)
      else if length a = 1 then Inr (map (\<lambda>y. hd a + y) b)
      else if length b = 1 then Inr (map (\<lambda>x. x + hd b) a)
      else Inl ValueError)"

subsection \<open>Parameters, files and the loader's state\<close>

text \<open>
  Modelled from the spec: the class \<^verbatim>\<open>SingleDataParameter\<close> (\<^verbatim>\<open>PINNICLE/parameter.py\<close>)
  is not among the sources. The record holds the attributes that \<^verbatim>\<open>data.py\<close> reads, as the
  spec lists them for the configuration of one source: the type tag, the file location,
  and \<^verbatim>\<open>data_size\<close>, which maps a field name to an integer or to \<^verbatim>\<open>None\<close>.
\<close>

record SingleDataParameter =
  source :: string
  data_path :: string
  data_size :: "(string \<times> int option) list"

text \<open>
  What \<^verbatim>\<open>mat73.loadmat\<close> returns: a dictionary whose entry \<^verbatim>\<open>'md'\<close> is the model, a
  dictionary of groups (\<^verbatim>\<open>'mesh'\<close>, \<^verbatim>\<open>'inversion'\<close>, ...) of named arrays.
\<close>

type_synonym mdgroup = "(string \<times> array) list"
type_synonym mdmodel = "(string \<times> mdgroup) list"
type_synonym matfile = "(string \<times> mdmodel) list"

text \<open>
  The file system: the readable files by path, and the log of the paths that were opened,
  oldest first.
\<close>

record world =
  files :: "(string \<times> matfile) list"
  reads :: "string list"

text \<open>\<^verbatim>\<open>mat73.loadmat(path)\<close>: a path that cannot be read raises.\<close>

definition loadmat :: "world \<Rightarrow> string \<Rightarrow> error + matfile" where
  "loadmat w path = (case map_of (files w) path of None \<Rightarrow> Inl OSError | Some d \<Rightarrow> Inr d)"

text \<open>
  The attributes of an \<^verbatim>\<open>ISSMmdData\<close> object. \<open>X\<close> and \<open>sol\<close> are \<^verbatim>\<open>None\<close> until
  \<^verbatim>\<open>prepare_training_data\<close> runs. \<open>yts\<close> is the attribute set by \<^verbatim>\<open>Constants.__init__\<close>.
\<close>

record ISSMmdData =
  parameters :: SingleDataParameter
  yts :: real
  X_dict :: "(string \<times> array) list"
  data_dict :: "(string \<times> array) list"
  mask_dict :: "(string \<times> array) list"
  X :: "(string \<times> (real \<times> real) list) list option"
  sol :: "(string \<times> real list) list option"

text \<open>
  Modelled from the spec: the class \<^verbatim>\<open>Constants\<close> (\<^verbatim>\<open>PINNICLE/physics\<close>) is not among
  the sources; it supplies the seconds-per-year constant, which
  \<^verbatim>\<open>src/tests/test_pinn.py\<close> writes as \<^verbatim>\<open>3600*24*365\<close>.
\<close>

definition Constants_yts :: real where
  "Constants_yts = 3600 * 24 * 365"

text \<open>\<^verbatim>\<open>ISSMmdData.__init__\<close> (with \<^verbatim>\<open>DataBase.__init__\<close>): empty dictionaries, no samples.\<close>

definition ISSMmdData_init :: "SingleDataParameter \<Rightarrow> ISSMmdData" where
  "ISSMmdData_init p =
     \<lparr>parameters = p, yts = Constants_yts, X_dict = [], data_dict = [], mask_dict = [],
      X = None, sol = None\<rparr>"

subsection \<open>The registry of data classes\<close>

text \<open>
  The classes that derive from \<^verbatim>\<open>DataBase\<close>; \<^verbatim>\<open>__init_subclass__\<close> enters each one in
  \<^verbatim>\<open>DataBase.subclasses\<close> under its \<^verbatim>\<open>_DATA_TYPE\<close> when the class is defined.
\<close>

datatype data_class = ISSMmdData_class

fun DATA_TYPE :: "data_class \<Rightarrow> string" where
  "DATA_TYPE ISSMmdData_class = ''ISSM''"

definition init_subclass :: "data_class \<Rightarrow> (string \<times> data_class) list \<Rightarrow> (string \<times> data_class) list" where
  "init_subclass cls reg = AList.update (DATA_TYPE cls) cls reg"

text \<open>The registry once the module is imported.\<close>

definition subclasses :: "(string \<times> data_class) list" where
  "subclasses = init_subclass ISSMmdData_class []"

text \<open>Calling a class: \<^verbatim>\<open>cls(parameters=p)\<close>.\<close>

fun instantiate :: "data_class \<Rightarrow> SingleDataParameter \<Rightarrow> ISSMmdData" where
  "instantiate ISSMmdData_class p = ISSMmdData_init p"

text \<open>
  \<^verbatim>\<open>DataBase.create(data_type, parameters=p)\<close>, over the registry \<open>reg\<close>. It takes no
  \<open>world\<close>: neither \<^verbatim>\<open>create\<close> nor the constructors open a file.
\<close>

definition create :: "(string \<times> data_class) list \<Rightarrow> string \<Rightarrow> SingleDataParameter \<Rightarrow> error + ISSMmdData" where
  "create reg data_type p =
     (case map_of reg data_type of
        None \<Rightarrow> Inl ValueError
      | Some cls \<Rightarrow> Inr (instantiate cls p))"

subsection \<open>The ISSM loader\<close>

text \<open>\<^verbatim>\<open>ISSMmdData.get_ice_indices\<close>.\<close>

definition get_ice_indices :: "ISSMmdData \<Rightarrow> string \<Rightarrow> error + nat list" where
  "get_ice_indices self mask_name =
     (let mask_name =
            (if mask_name = [] \<or> map_of (mask_dict self) mask_name = None
             then ''icemask'' else mask_name)
      in case getitem (mask_dict self) mask_name of
           Inl e \<Rightarrow> Inl e
         | Inr icemask \<Rightarrow> Inr (nonzero (map (\<lambda>v. v < 0) icemask)))"

text \<open>
  \<^verbatim>\<open>np.hstack((x[idx].flatten()[:,None], y[idx].flatten()[:,None]))\<close>: the rows \<open>(x, y)\<close>
  at the indices \<open>idx\<close>; \<^verbatim>\<open>x\<close> is read before \<^verbatim>\<open>y\<close>.
\<close>

definition coordinates_at :: "ISSMmdData \<Rightarrow> nat list \<Rightarrow> error + (real \<times> real) list" where
  "coordinates_at self idx =
     (case getitem (X_dict self) ''x'' of Inl e \<Rightarrow> Inl e | Inr x \<Rightarrow>
     (case take_idx x idx of Inl e \<Rightarrow> Inl e | Inr xi \<Rightarrow>
     (case getitem (X_dict self) ''y'' of Inl e \<Rightarrow> Inl e | Inr y \<Rightarrow>
     (case take_idx y idx of Inl e \<Rightarrow> Inl e | Inr yi \<Rightarrow>
      Inr (zip xi yi)))))"

text \<open>\<^verbatim>\<open>ISSMmdData.get_ice_coordinates\<close>.\<close>

definition get_ice_coordinates :: "ISSMmdData \<Rightarrow> string \<Rightarrow> error + (real \<times> real) list" where
  "get_ice_coordinates self mask_name =
     (case get_ice_indices self mask_name of
        Inl e \<Rightarrow> Inl e
      | Inr iice \<Rightarrow> coordinates_at self iice)"

text \<open>
  The assignments of \<^verbatim>\<open>load_data\<close>: the right-hand side is evaluated in the current
  state, and the dictionary changes only when it does not raise.
\<close>

definition set_X_dict :: "string \<Rightarrow> (ISSMmdData \<Rightarrow> error + array) \<Rightarrow> ISSMmdData \<Rightarrow> ISSMmdData outcome" where
  "set_X_dict k rhs self =
     (case rhs self of
        Inl e \<Rightarrow> Raised e self
      | Inr v \<Rightarrow> Done (self\<lparr>X_dict := AList.update k v (X_dict self)\<rparr>))"

definition set_data_dict :: "string \<Rightarrow> (ISSMmdData \<Rightarrow> error + array) \<Rightarrow> ISSMmdData \<Rightarrow> ISSMmdData outcome" where
  "set_data_dict k rhs self =
     (case rhs self of
        Inl e \<Rightarrow> Raised e self
      | Inr v \<Rightarrow> Done (self\<lparr>data_dict := AList.update k v (data_dict self)\<rparr>))"

definition set_mask_dict :: "string \<Rightarrow> (ISSMmdData \<Rightarrow> error + array) \<Rightarrow> ISSMmdData \<Rightarrow> ISSMmdData outcome" where
  "set_mask_dict k rhs self =
     (case rhs self of
        Inl e \<Rightarrow> Raised e self
      | Inr v \<Rightarrow> Done (self\<lparr>mask_dict := AList.update k v (mask_dict self)\<rparr>))"

text \<open>\<^verbatim>\<open>md[a][b]/self.yts\<close>.\<close>

definition per_second :: "mdmodel \<Rightarrow> string \<Rightarrow> string \<Rightarrow> ISSMmdData \<Rightarrow> error + array" where
  "per_second md a b self =
     (case getitem2 md a b of Inl e \<Rightarrow> Inl e | Inr v \<Rightarrow> Inr (map (\<lambda>r. r / yts self) v))"

text \<open>\<^verbatim>\<open>np.sqrt(self.data_dict['u']**2.0+self.data_dict['v']**2.0)\<close>.\<close>

definition vel_of :: "ISSMmdData \<Rightarrow> error + array" where
  "vel_of self =
     (case getitem (data_dict self) ''u'' of Inl e \<Rightarrow> Inl e | Inr u \<Rightarrow>
     (case getitem (data_dict self) ''v'' of Inl e \<Rightarrow> Inl e | Inr v \<Rightarrow>
     (case np_add (map (\<lambda>r. r ^ 2) u) (map (\<lambda>r. r ^ 2) v) of Inl e \<Rightarrow> Inl e | Inr s \<Rightarrow>
      Inr (map sqrt s))))"

text \<open>The body of \<^verbatim>\<open>load_data\<close> once \<^verbatim>\<open>md\<close> is at hand, statement by statement.\<close>

definition load_md :: "mdmodel \<Rightarrow> (ISSMmdData \<Rightarrow> ISSMmdData outcome) list" where
  "load_md md =
     [set_X_dict ''x'' (\<lambda>_. getitem2 md ''mesh'' ''x''),
      set_X_dict ''y'' (\<lambda>_. getitem2 md ''mesh'' ''y''),
      set_data_dict ''u'' (per_second md ''inversion'' ''vx_obs''),
      set_data_dict ''v'' (per_second md ''inversion'' ''vy_obs''),
      set_data_dict ''s'' (\<lambda>_. getitem2 md ''geometry'' ''surface''),
      set_data_dict ''H'' (\<lambda>_. getitem2 md ''geometry'' ''thickness''),
      set_data_dict ''C'' (\<lambda>_. getitem2 md ''friction'' ''C''),
      set_data_dict ''B'' (\<lambda>_. getitem2 md ''materials'' ''rheology_B''),
      set_data_dict ''vel'' vel_of,
      set_mask_dict ''icemask'' (\<lambda>_. getitem2 md ''mask'' ''ice_levelset''),
      set_mask_dict ''DBC_mask'' (\<lambda>_. getitem2 md ''mesh'' ''vertexonboundary'')]"

text \<open>
  \<^verbatim>\<open>ISSMmdData.load_data\<close>. The path enters the log of reads whether or not the file can
  be read.
\<close>

definition ISSMmdData_load_data :: "world \<Rightarrow> ISSMmdData \<Rightarrow> (ISSMmdData \<times> world) outcome" where
  "ISSMmdData_load_data w self =
     (let path = data_path (parameters self);
          w' = w\<lparr>reads := reads w @ [path]\<rparr>
      in case loadmat w path of
           Inl e \<Rightarrow> Raised e (self, w')
         | Inr data \<Rightarrow>
             (case getitem data ''md'' of
                Inl e \<Rightarrow> Raised e (self, w')
              | Inr md \<Rightarrow> map_outcome (\<lambda>s. (s, w')) (run (load_md md) self)))"

text \<open>
  \<^verbatim>\<open>np.random.choice(a, size, replace=False)\<close> belongs to numpy, so the sampler is a
  parameter of the model: from the state \<open>g\<close> of the generator, the population size and
  the requested size it yields the array of drawn indices, or raises, and the next state
  of the generator. \<open>choice_no_replace\<close> is what numpy documents for it: a request for
  \<open>n\<close> indices with \<open>0 \<le> n \<le> a\<close> is served with \<open>n\<close> pairwise distinct indices
  below \<open>a\<close>. Outside this range nothing is assumed of the sampler.
\<close>

type_synonym 'g sampler = "'g \<Rightarrow> nat \<Rightarrow> int \<Rightarrow> (error + nat list) \<times> 'g"

definition choice_no_replace :: "'g sampler \<Rightarrow> bool" where
  "choice_no_replace choice \<longleftrightarrow>
     (\<forall>g a n. 0 \<le> n \<and> n \<le> int a \<longrightarrow>
        (\<exists>idx. fst (choice g a n) = Inr idx \<and> length idx = nat n \<and>
               distinct idx \<and> list_all (\<lambda>i. i < a) idx))"

text \<open>
  The body of the loop \<^verbatim>\<open>for k in self.data_dict\<close> of \<^verbatim>\<open>prepare_training_data\<close>. The
  state of the loop is \<^verbatim>\<open>self.X\<close>, \<^verbatim>\<open>self.sol\<close> (dictionaries since the start of the
  method) and the generator; \<open>dsize\<close> is \<^verbatim>\<open>data_size\<close> and \<open>dd\<close> is \<^verbatim>\<open>self.data_dict\<close>.
  In the branch of \<^verbatim>\<open>None\<close>, \<^verbatim>\<open>self.X[k]\<close> is assigned before the right-hand side of
  \<^verbatim>\<open>self.sol[k]\<close> is evaluated.
\<close>

type_synonym 'g samples =
  "(string \<times> (real \<times> real) list) list \<times> (string \<times> real list) list \<times> 'g"

definition sample_field ::
  "'g sampler \<Rightarrow> (string \<times> int option) list \<Rightarrow> (string \<times> array) list \<Rightarrow> nat list \<Rightarrow> nat list \<Rightarrow>
   (real \<times> real) list \<Rightarrow> (real \<times> real) list \<Rightarrow> string \<Rightarrow> 'g samples \<Rightarrow> 'g samples outcome" where
  "sample_field choice dsize dd iice idbc X_temp X_bc k st =
     (case st of (Xd, sold, g) \<Rightarrow>
      (case map_of dsize k of
         None \<Rightarrow> Done (Xd, sold, g)
       | Some (Some n) \<Rightarrow>
           (case getitem dd k of Inl e \<Rightarrow> Raised e (Xd, sold, g) | Inr a \<Rightarrow>
           (case take_idx a iice of Inl e \<Rightarrow> Raised e (Xd, sold, g) | Inr sol_temp \<Rightarrow>
           (let max_data_size = length X_temp in
            case choice g max_data_size (min n (int max_data_size)) of
              (Inl e, g') \<Rightarrow> Raised e (Xd, sold, g')
            | (Inr idx, g') \<Rightarrow>
                (case take_idx X_temp idx of Inl e \<Rightarrow> Raised e (Xd, sold, g') | Inr rows \<Rightarrow>
                (case take_idx sol_temp idx of
                   Inl e \<Rightarrow> Raised e (AList.update k rows Xd, sold, g')
                 | Inr vals \<Rightarrow> Done (AList.update k rows Xd, AList.update k vals sold, g'))))))
       | Some None \<Rightarrow>
           (case getitem dd k of Inl e \<Rightarrow> Raised e (AList.update k X_bc Xd, sold, g) | Inr a \<Rightarrow>
           (case take_idx a idbc of
              Inl e \<Rightarrow> Raised e (AList.update k X_bc Xd, sold, g)
            | Inr vals \<Rightarrow> Done (AList.update k X_bc Xd, AList.update k vals sold, g)))))"

text \<open>
  \<^verbatim>\<open>ISSMmdData.prepare_training_data(data_size)\<close>; the argument \<open>None\<close> stands for the
  call without an argument.
\<close>

definition prepare_training_data ::
  "'g sampler \<Rightarrow> 'g \<Rightarrow> ISSMmdData \<Rightarrow> (string \<times> int option) list option \<Rightarrow> (ISSMmdData \<times> 'g) outcome" where
  "prepare_training_data choice g self data_size_arg =
     (let dsize = (case data_size_arg of None \<Rightarrow> data_size (parameters self) | Some d \<Rightarrow> d);
          self = self\<lparr>X := Some [], sol := Some []\<rparr>
      in case get_ice_indices self [] of Inl e \<Rightarrow> Raised e (self, g) | Inr iice \<Rightarrow>
        (case coordinates_at self iice of Inl e \<Rightarrow> Raised e (self, g) | Inr X_temp \<Rightarrow>
        (case getitem (mask_dict self) ''DBC_mask'' of Inl e \<Rightarrow> Raised e (self, g) | Inr DBC \<Rightarrow>
        (let idbc = nonzero (map (\<lambda>v. v > 0) DBC) in
         case coordinates_at self idbc of Inl e \<Rightarrow> Raised e (self, g) | Inr X_bc \<Rightarrow>
           map_outcome (\<lambda>(Xd, sold, g'). (self\<lparr>X := Some Xd, sol := Some sold\<rparr>, g'))
             (run (map (sample_field choice dsize (data_dict self) iice idbc X_temp X_bc)
                       (map fst (data_dict self)))
                  ([], [], g))))))"

subsection \<open>The manager of all loaders\<close>

text \<open>
  Modelled from the spec: the class \<^verbatim>\<open>DataParameter\<close> (\<^verbatim>\<open>PINNICLE/parameter.py\<close>) is not
  among the sources. Its attribute \<^verbatim>\<open>data\<close> maps the name of each source to the
  parameters of that source.
\<close>

record DataParameter =
  data :: "(string \<times> SingleDataParameter) list"

text \<open>
  The attributes of a \<^verbatim>\<open>Data\<close> object. Each loader is an object of its own, held under
  its key, so a loader that changes stays at its place in \<open>data\<close>.
\<close>

record Data =
  parameters :: DataParameter
  data :: "(string \<times> ISSMmdData) list"
  X :: "(string \<times> (real \<times> real) list) list"
  sol :: "(string \<times> real list) list"

text \<open>The dictionary comprehension of \<^verbatim>\<open>Data.__init__\<close>: the first failing \<^verbatim>\<open>create\<close> ends it.\<close>

fun create_all ::
  "(string \<times> data_class) list \<Rightarrow> (string \<times> SingleDataParameter) list \<Rightarrow> error + (string \<times> ISSMmdData) list" where
  "create_all reg [] = Inr []"
| "create_all reg ((k, p) # rest) =
     (case create reg (source p) p of
        Inl e \<Rightarrow> Inl e
      | Inr ld \<Rightarrow> (case create_all reg rest of Inl e \<Rightarrow> Inl e | Inr lds \<Rightarrow> Inr ((k, ld) # lds)))"

text \<open>\<^verbatim>\<open>Data.__init__\<close>.\<close>

definition Data_init :: "(string \<times> data_class) list \<Rightarrow> DataParameter \<Rightarrow> error + Data" where
  "Data_init reg p =
     (case create_all reg (DataParameter.data p) of
        Inl e \<Rightarrow> Inl e
      | Inr lds \<Rightarrow> Inr \<lparr>parameters = p, data = lds, X = [], sol = []\<rparr>)"

text \<open>
  The loop of \<^verbatim>\<open>Data.load_data\<close> over the loaders, in the order of the dictionary. The
  result holds the loaders as the loop leaves them.
\<close>

fun load_all :: "world \<Rightarrow> (string \<times> ISSMmdData) list \<Rightarrow> ((string \<times> ISSMmdData) list \<times> world) outcome" where
  "load_all w [] = Done ([], w)"
| "load_all w ((k, ld) # rest) =
     (case ISSMmdData_load_data w ld of
        Raised e (ld', w') \<Rightarrow> Raised e ((k, ld') # rest, w')
      | Done (ld', w') \<Rightarrow> map_outcome (\<lambda>(lds, w''). ((k, ld') # lds, w'')) (load_all w' rest))"

text \<open>\<^verbatim>\<open>Data.load_data\<close>.\<close>

definition Data_load_data :: "world \<Rightarrow> Data \<Rightarrow> (Data \<times> world) outcome" where
  "Data_load_data w self =
     map_outcome (\<lambda>(lds, w'). (self\<lparr>data := lds\<rparr>, w')) (load_all w (data self))"

text \<open>
  The merge loops of \<^verbatim>\<open>Data.prepare_training_data\<close>: \<^verbatim>\<open>for xkey in loader.X\<close> assigns a
  new key and stacks the rows of a known key below the rows already there
  (\<^verbatim>\<open>np.vstack\<close>).
\<close>

fun merge_rows :: "(string \<times> 'r list) list \<Rightarrow> (string \<times> 'r list) list \<Rightarrow> (string \<times> 'r list) list" where
  "merge_rows agg [] = agg"
| "merge_rows agg ((xkey, rows) # rest) =
     merge_rows
       (case map_of agg xkey of
          None \<Rightarrow> AList.update xkey rows agg
        | Some old \<Rightarrow> AList.update xkey (old @ rows) agg)
       rest"

text \<open>
  The outer loop of \<^verbatim>\<open>Data.prepare_training_data\<close> over the loaders; \<open>aX\<close> and \<open>asol\<close>
  are \<^verbatim>\<open>self.X\<close> and \<^verbatim>\<open>self.sol\<close> of the manager. Iterating over an attribute that is
  \<^verbatim>\<open>None\<close> raises \<^verbatim>\<open>TypeError\<close>.
\<close>

type_synonym 'g merged =
  "((string \<times> ISSMmdData) list \<times> (string \<times> (real \<times> real) list) list \<times> (string \<times> real list) list) \<times> 'g"

fun prepare_all ::
  "'g sampler \<Rightarrow> 'g \<Rightarrow> (string \<times> ISSMmdData) list \<Rightarrow> (string \<times> (real \<times> real) list) list \<Rightarrow>
   (string \<times> real list) list \<Rightarrow> 'g merged outcome" where
  "prepare_all choice g [] aX asol = Done (([], aX, asol), g)"
| "prepare_all choice g ((key, ld) # rest) aX asol =
     (case prepare_training_data choice g ld None of
        Raised e (ld', g') \<Rightarrow> Raised e (((key, ld') # rest, aX, asol), g')
      | Done (ld', g') \<Rightarrow>
          (case ISSMmdData.X ld' of
             None \<Rightarrow> Raised TypeError (((key, ld') # rest, aX, asol), g')
           | Some lX \<Rightarrow>
               (case ISSMmdData.sol ld' of
                  None \<Rightarrow> Raised TypeError (((key, ld') # rest, merge_rows aX lX, asol), g')
                | Some lsol \<Rightarrow>
                    map_outcome (\<lambda>((lds, x, s), g''). (((key, ld') # lds, x, s), g''))
                      (prepare_all choice g' rest (merge_rows aX lX) (merge_rows asol lsol)))))"

text \<open>\<^verbatim>\<open>Data.prepare_training_data\<close>.\<close>

definition Data_prepare_training_data :: "'g sampler \<Rightarrow> 'g \<Rightarrow> Data \<Rightarrow> (Data \<times> 'g) outcome" where
  "Data_prepare_training_data choice g self =
     map_outcome (\<lambda>((lds, x, s), g'). (self\<lparr>data := lds, X := x, sol := s\<rparr>, g'))
       (prepare_all choice g (data self) (X self) (sol self))"

subsection \<open>A small model, for the concrete instances\<close>

text \<open>
  A mesh of four vertices. Vertices 0, 1 and 3 are covered by ice (negative level set),
  vertices 0 and 3 lie on the boundary. The observed velocities are multiples of the
  number of seconds per year.
\<close>

definition ex_md :: mdmodel where
  "ex_md =
     [(''mesh'', [(''x'', [0, 1, 2, 3]), (''y'', [0, 0, 1, 1]),
                  (''vertexonboundary'', [1, 0, 0, 1])]),
      (''inversion'', [(''vx_obs'', [94608000, 0, 189216000, 0]),
                       (''vy_obs'', [126144000, 0, 252288000, 157680000])]),
      (''geometry'', [(''surface'', [10, 11, 12, 13]), (''thickness'', [20, 21, 22, 23])]),
      (''friction'', [(''C'', [30, 31, 32, 33])]),
      (''materials'', [(''rheology_B'', [40, 41, 42, 43])]),
      (''mask'', [(''ice_levelset'', [-1, -1, 1, -1])])]"

definition ex_world :: world where
  "ex_world = \<lparr>files = [(''a.mat'', [(''md'', ex_md)])], reads = []\<rparr>"

definition ex_param :: SingleDataParameter where
  "ex_param =
     \<lparr>source = ''ISSM'', data_path = ''a.mat'', data_size = [(''u'', Some 100), (''C'', None)]\<rparr>"

text \<open>The loader of \<open>ex_param\<close> after \<^verbatim>\<open>load_data\<close> in \<open>ex_world\<close>.\<close>

definition ex_loaded :: ISSMmdData where
  "ex_loaded =
     \<lparr>ISSMmdData.parameters = ex_param, yts = Constants_yts,
      X_dict = [(''x'', [0, 1, 2, 3]), (''y'', [0, 0, 1, 1])],
      data_dict = [(''u'', [3, 0, 6, 0]), (''v'', [4, 0, 8, 5]), (''s'', [10, 11, 12, 13]),
                   (''H'', [20, 21, 22, 23]), (''C'', [30, 31, 32, 33]),
                   (''B'', [40, 41, 42, 43]), (''vel'', [5, 0, 10, 5])],
      mask_dict = [(''icemask'', [-1, -1, 1, -1]), (''DBC_mask'', [1, 0, 0, 1])],
      ISSMmdData.X = None, ISSMmdData.sol = None\<rparr>"

text \<open>
  A sampler that meets \<open>choice_no_replace\<close>: it draws the highest indices first and has
  no state.
\<close>

definition ex_choice :: "unit sampler" where
  "ex_choice g a n =
     (if 0 \<le> n \<and> n \<le> int a then Inr (take (nat n) (rev [0..<a])) else Inl ValueError, g)"

text \<open>
  \<open>ex_loaded\<close> after \<^verbatim>\<open>prepare_training_data()\<close> with \<open>ex_choice\<close>: the three ice vertices
  for \<^verbatim>\<open>'u'\<close> (a hundred were asked for), the two boundary vertices for \<^verbatim>\<open>'C'\<close>.
\<close>

definition ex_prepared :: ISSMmdData where
  "ex_prepared =
     ex_loaded\<lparr>ISSMmdData.X := Some [(''u'', [(3, 1), (1, 0), (0, 0)]), (''C'', [(0, 0), (3, 1)])],
               ISSMmdData.sol := Some [(''u'', [0, 0, 3]), (''C'', [30, 33])]\<rparr>"

text \<open>
  Three sources for one manager: the file of the second one does not exist. And the
  manager as \<^verbatim>\<open>Data.__init__\<close> builds it.
\<close>

definition ex_param_missing :: SingleDataParameter where
  "ex_param_missing = \<lparr>source = ''ISSM'', data_path = ''b.mat'', data_size = []\<rparr>"

definition ex_param_u :: SingleDataParameter where
  "ex_param_u = \<lparr>source = ''ISSM'', data_path = ''a.mat'', data_size = [(''u'', Some 2)]\<rparr>"

definition ex_manager_param :: DataParameter where
  "ex_manager_param =
     \<lparr>DataParameter.data =
        [(''first'', ex_param), (''second'', ex_param_missing), (''third'', ex_param_u)]\<rparr>"

definition ex_manager :: Data where
  "ex_manager =
     \<lparr>Data.parameters = ex_manager_param,
      Data.data = [(''first'', ISSMmdData_init ex_param),
                   (''second'', ISSMmdData_init ex_param_missing),
                   (''third'', ISSMmdData_init ex_param_u)],
      Data.X = [], Data.sol = []\<rparr>"

text \<open>
  A manager of two loaded sources, before its first \<^verbatim>\<open>prepare_training_data\<close>: the second
  source asks for two samples of \<^verbatim>\<open>'u'\<close> and for nothing else.
\<close>

definition ex_pair :: Data where
  "ex_pair =
     \<lparr>Data.parameters = \<lparr>DataParameter.data = [(''first'', ex_param), (''second'', ex_param_u)]\<rparr>,
      Data.data = [(''first'', ex_loaded),
                   (''second'', ex_loaded\<lparr>ISSMmdData.parameters := ex_param_u\<rparr>)],
      Data.X = [], Data.sol = []\<rparr>"

text \<open>The manager of these two sources as \<^verbatim>\<open>Data.__init__\<close> builds it, before \<^verbatim>\<open>load_data\<close>.\<close>

definition ex_pair_param :: DataParameter where
  "ex_pair_param = \<lparr>DataParameter.data = [(''first'', ex_param), (''second'', ex_param_u)]\<rparr>"

definition ex_pair_new :: Data where
  "ex_pair_new =
     \<lparr>Data.parameters = ex_pair_param,
      Data.data = [(''first'', ISSMmdData_init ex_param), (''second'', ISSMmdData_init ex_param_u)],
      Data.X = [], Data.sol = []\<rparr>"

text \<open>
  The second loader of \<open>ex_pair\<close> after its \<^verbatim>\<open>prepare_training_data()\<close> with \<open>ex_choice\<close>,
  and \<open>ex_pair\<close> after one and after two calls of \<^verbatim>\<open>Data.prepare_training_data\<close>.
\<close>

definition ex_prepared_u :: ISSMmdData where
  "ex_prepared_u =
     ex_loaded\<lparr>ISSMmdData.parameters := ex_param_u,
               ISSMmdData.X := Some [(''u'', [(3, 1), (1, 0)])],
               ISSMmdData.sol := Some [(''u'', [0, 0])]\<rparr>"

definition ex_pair_once :: Data where
  "ex_pair_once =
     ex_pair\<lparr>Data.data := [(''first'', ex_prepared), (''second'', ex_prepared_u)],
             Data.X := [(''u'', [(3, 1), (1, 0), (0, 0), (3, 1), (1, 0)]), (''C'', [(0, 0), (3, 1)])],
             Data.sol := [(''u'', [0, 0, 3, 0, 0]), (''C'', [30, 33])]\<rparr>"

definition ex_pair_twice :: Data where
  "ex_pair_twice =
     ex_pair_once
       \<lparr>Data.X := [(''u'', [(3, 1), (1, 0), (0, 0), (3, 1), (1, 0),
                            (3, 1), (1, 0), (0, 0), (3, 1), (1, 0)]),
                   (''C'', [(0, 0), (3, 1), (0, 0), (3, 1)])],
        Data.sol := [(''u'', [0, 0, 3, 0, 0, 0, 0, 3, 0, 0]), (''C'', [30, 33, 30, 33])]\<rparr>"

subsection \<open>Notions for the properties\<close>

text \<open>
  The blocks of rows that the loaders hold for the field \<open>k\<close>, in the order of the
  loaders; a loader whose \<^verbatim>\<open>X\<close> (or \<^verbatim>\<open>sol\<close>) has no key \<open>k\<close> gives no block.
\<close>

definition produced_X :: "string \<Rightarrow> (string \<times> ISSMmdData) list \<Rightarrow> (real \<times> real) list list" where
  "produced_X k lds =
     List.map_filter (\<lambda>(key, ld). case ISSMmdData.X ld of None \<Rightarrow> None | Some d \<Rightarrow> map_of d k) lds"

definition produced_sol :: "string \<Rightarrow> (string \<times> ISSMmdData) list \<Rightarrow> real list list" where
  "produced_sol k lds =
     List.map_filter (\<lambda>(key, ld). case ISSMmdData.sol ld of None \<Rightarrow> None | Some d \<Rightarrow> map_of d k) lds"

text \<open>
  The world once the files of the loaders \<open>lds\<close> have been opened, one after the other
  in the order of the list.
\<close>

definition world_after :: "world \<Rightarrow> (string \<times> ISSMmdData) list \<Rightarrow> world" where
  "world_after w lds =
     w\<lparr>reads := reads w @ map (\<lambda>(k, l). data_path (ISSMmdData.parameters l)) lds\<rparr>"

text \<open>The number of rows under each key of \<^verbatim>\<open>X\<close> or \<^verbatim>\<open>sol\<close>.\<close>

definition row_counts :: "(string \<times> 'r list) list \<Rightarrow> (string \<times> nat) list" where
  "row_counts d = map (\<lambda>(k, rows). (k, length rows)) d"

section \<open>Properties\<close>

subsection \<open>Blocks of statements\<close>

lemma run_Cons_Done:
  "run (c # cs) s = Done t \<longleftrightarrow> (\<exists>s'. c s = Done s' \<and> run cs s' = Done t)"
  by (simp split: outcome.splits)





lemma map_outcome_Done:
  "map_outcome f r = Done t \<longleftrightarrow> (\<exists>s. r = Done s \<and> t = f s)"
  by (cases r) auto


subsection \<open>The small model\<close>

lemma ex_load:
  "ISSMmdData_load_data ex_world (ISSMmdData_init ex_param) = Done (ex_loaded, ex_world\<lparr>reads := [''a.mat'']\<rparr>)"
  by (simp add: ISSMmdData_load_data_def ISSMmdData_init_def ex_param_def ex_world_def loadmat_def
      getitem_def Let_def load_md_def set_X_dict_def set_data_dict_def set_mask_dict_def getitem2_def
      per_second_def vel_of_def np_add_def ex_md_def ex_loaded_def Constants_yts_def)

lemma ex_choice_ok: "choice_no_replace ex_choice"
  by (auto simp: choice_no_replace_def ex_choice_def list_all_iff dest: in_set_takeD)

subsection \<open>Loading\<close>




subsection \<open>The ice indices\<close>

text \<open>
  C6. On a loader that holds the ice mask (\<^verbatim>\<open>load_data\<close> stores it, so every loaded
  loader does), \<^verbatim>\<open>get_ice_indices\<close> with an empty mask name, or with a
  name that is no key of \<^verbatim>\<open>mask_dict\<close>, raises nothing: it returns the indices at which
  the ice mask is negative, in increasing order, which is also what
  \<^verbatim>\<open>get_ice_indices("icemask")\<close> returns.
\<close>

theorem get_ice_indices_default:
  assumes "map_of (mask_dict self) ''icemask'' = Some icemask"
    and "mask_name = [] \<or> mask_name \<notin> fst ` set (mask_dict self)"
  shows "get_ice_indices self mask_name = Inr (filter (\<lambda>i. icemask ! i < 0) [0..<length icemask])
       \<and> get_ice_indices self mask_name = get_ice_indices self ''icemask''"
  using assms
  by (auto simp: get_ice_indices_def getitem_def nonzero_def map_of_eq_None_iff Let_def
      intro: filter_cong)

theorem get_ice_indices_default_witness:
  "map_of (mask_dict ex_loaded) ''icemask'' = Some [-1, -1, 1, -1] \<and>
   ''nomask'' \<notin> fst ` set (mask_dict ex_loaded) \<and>
   get_ice_indices ex_loaded ''nomask'' = Inr [0, 1, 3] \<and>
   get_ice_indices ex_loaded [] = Inr [0, 1, 3] \<and>
   get_ice_indices ex_loaded ''icemask'' = Inr [0, 1, 3]"
proof -
  have m: "map_of (mask_dict ex_loaded) ''icemask'' = Some [-1, -1, 1, -1]"
    by (simp add: ex_loaded_def)
  have n: "''nomask'' \<notin> fst ` set (mask_dict ex_loaded)"
    by (simp add: ex_loaded_def)
  have f: "filter (\<lambda>i. [-1, -1, 1, -1 :: real] ! i < 0) [0..<length [-1, -1, 1, -1 :: real]] = [0, 1, 3]"
    by (simp add: upt_rec)
  note a = get_ice_indices_default[OF m, of "''nomask''", unfolded f, OF disjI2[OF n]]
  note b = get_ice_indices_default[OF m, of "[]", unfolded f, OF disjI1[OF refl]]
  from a have 1: "get_ice_indices ex_loaded ''nomask'' = Inr [0, 1, 3]" by (rule conjunct1)
  from a have 2: "get_ice_indices ex_loaded ''icemask'' = Inr [0, 1, 3]" by metis
  from b have 3: "get_ice_indices ex_loaded [] = Inr [0, 1, 3]" by (rule conjunct1)
  from m n 1 2 3 show ?thesis by blast
qed

subsection \<open>The registry\<close>

text \<open>
  C7. Over any registry, \<^verbatim>\<open>DataBase.create\<close> raises exactly when the tag is no key of
  the registry; for a registered tag it returns the instance that the registered class
  builds from the given parameters, whose dictionaries are empty and whose \<^verbatim>\<open>parameters\<close>
  are the given ones. With the registry of the module, the tag \<^verbatim>\<open>"ISSM"\<close> is the only
  one that does not raise. (\<open>create\<close> has no access to the files.)
\<close>

theorem create_raises_iff_unregistered:
  "(isl (create reg data_type p) \<longleftrightarrow> data_type \<notin> fst ` set reg) \<and>
   (\<forall>cls. map_of reg data_type = Some cls \<longrightarrow>
      create reg data_type p = Inr (instantiate cls p) \<and>
      ISSMmdData.parameters (instantiate cls p) = p \<and>
      X_dict (instantiate cls p) = [] \<and> data_dict (instantiate cls p) = [] \<and>
      mask_dict (instantiate cls p) = []) \<and>
   (isl (create subclasses data_type p) \<longleftrightarrow> data_type \<noteq> ''ISSM'')"
proof -
  have 1: "isl (create reg data_type p) \<longleftrightarrow> data_type \<notin> fst ` set reg"
    by (simp add: create_def map_of_eq_None_iff[symmetric] split: option.splits)
  have 2: "create reg data_type p = Inr (instantiate cls p) \<and>
      ISSMmdData.parameters (instantiate cls p) = p \<and>
      X_dict (instantiate cls p) = [] \<and> data_dict (instantiate cls p) = [] \<and>
      mask_dict (instantiate cls p) = []" if "map_of reg data_type = Some cls" for cls
    using that by (cases cls) (simp add: create_def ISSMmdData_init_def)
  have 3: "isl (create subclasses data_type p) \<longleftrightarrow> data_type \<noteq> ''ISSM''"
    by (auto simp: create_def subclasses_def init_subclass_def)
  from 1 2 3 show ?thesis by blast
qed

theorem create_raises_iff_unregistered_witness:
  "create subclasses ''FOO'' ex_param = Inl ValueError \<and>
   map_of subclasses ''ISSM'' = Some ISSMmdData_class \<and>
   create subclasses ''ISSM'' ex_param = Inr (ISSMmdData_init ex_param)"
proof -
  have m: "map_of subclasses ''ISSM'' = Some ISSMmdData_class"
    by (simp add: subclasses_def init_subclass_def)
  from create_raises_iff_unregistered[of subclasses "''FOO''" ex_param]
  have "isl (create subclasses ''FOO'' ex_param)"
    by (simp add: subclasses_def init_subclass_def)
  then have 1: "create subclasses ''FOO'' ex_param = Inl ValueError"
    by (simp add: create_def split: option.splits)
  from create_raises_iff_unregistered[of subclasses "''ISSM''" ex_param] m
  have 2: "create subclasses ''ISSM'' ex_param = Inr (ISSMmdData_init ex_param)" by simp
  from m 1 2 show ?thesis by blast
qed

subsection \<open>Sampling: the loop\<close>

lemma run_map_preserve:
  assumes "run (map f ks) st = Done st'" and "Q st"
    and "\<And>j s s'. f j s = Done s' \<Longrightarrow> Q s \<Longrightarrow> Q s'"
  shows "Q st'"
  using assms(1,2)
proof (induction ks arbitrary: st)
  case Nil
  then show ?case by simp
next
  case (Cons j ks)
  from Cons.prems(1) obtain s1 where 1: "f j st = Done s1" and 2: "run (map f ks) s1 = Done st'"
    by (auto simp: run_Cons_Done simp del: run.simps(2))
  from assms(3)[OF 1 Cons.prems(2)] have "Q s1" .
  from Cons.IH[OF 2 this] show ?case .
qed

lemma run_map_establish:
  assumes "run (map f ks) st = Done st'" and "k \<in> set ks"
    and "\<And>s s'. f k s = Done s' \<Longrightarrow> Q s'"
    and "\<And>j s s'. f j s = Done s' \<Longrightarrow> Q s \<Longrightarrow> Q s'"
  shows "Q st'"
  using assms(1,2)
proof (induction ks arbitrary: st)
  case Nil
  then show ?case by simp
next
  case (Cons j ks)
  from Cons.prems(1) obtain s1 where 1: "f j st = Done s1" and 2: "run (map f ks) s1 = Done st'"
    by (auto simp: run_Cons_Done simp del: run.simps(2))
  show ?case
  proof (cases "j = k")
    case True
    with 1 assms(3) have "Q s1" by blast
    from run_map_preserve[where Q = Q, OF 2 this] assms(4) show ?thesis by blast
  next
    case False
    with Cons.prems(2) have "k \<in> set ks" by simp
    from Cons.IH[OF 2 this] show ?thesis .
  qed
qed

lemma run_map_invariant:
  assumes "Q st" and "\<And>j s. j \<in> set ks \<Longrightarrow> Q s \<Longrightarrow> Q (outcome_state (f j s))"
  shows "Q (outcome_state (run (map f ks) st))"
  using assms
proof (induction ks arbitrary: st)
  case Nil
  then show ?case by simp
next
  case (Cons j ks)
  from Cons.prems have q: "Q (outcome_state (f j st))" by simp
  show ?case
  proof (cases "f j st")
    case (Done s1)
    with q have "Q s1" by simp
    with Cons.IH[of s1] Cons.prems(2) have "Q (outcome_state (run (map f ks) s1))" by simp
    with Done show ?thesis by simp
  next
    case (Raised e s1)
    with q show ?thesis by simp
  qed
qed

lemma take_idx_Inr:
  "take_idx a idx = Inr r \<longleftrightarrow> (\<forall>i\<in>set idx. i < length a) \<and> r = map (\<lambda>i. a ! i) idx"
  by (auto simp: take_idx_def list_all_iff)

lemma take_idx_Inl:
  "take_idx a idx = Inl e \<longleftrightarrow> \<not> (\<forall>i\<in>set idx. i < length a) \<and> e = IndexError"
  by (auto simp: take_idx_def list_all_iff)

lemma sample_field_skip:
  "map_of dsize k = None \<Longrightarrow> sample_field choice dsize dd iice idbc X_temp X_bc k st = Done st"
  by (simp add: sample_field_def split: prod.splits)

lemma sample_field_bc_Done:
  assumes "map_of dsize k = Some None"
  shows "sample_field choice dsize dd iice idbc X_temp X_bc k (Xd, sold, g) = Done s' \<longleftrightarrow>
    (\<exists>a. map_of dd k = Some a \<and> (\<forall>i\<in>set idbc. i < length a) \<and>
         s' = (AList.update k X_bc Xd, AList.update k (map (\<lambda>i. a ! i) idbc) sold, g))"
  using assms
  by (auto simp: sample_field_def getitem_def take_idx_Inr take_idx_Inl
      split: option.splits sum.splits)

lemma map_nth_map:
  "\<forall>i\<in>set idx. i < length js \<Longrightarrow> map (\<lambda>i. map f js ! i) idx = map (\<lambda>i. f (js ! i)) idx"
  by (induction idx) auto

lemma sample_field_count_raw:
  assumes "map_of dsize k = Some (Some n)"
  shows "sample_field choice dsize dd iice idbc X_temp X_bc k (Xd, sold, g) = Done s' \<longleftrightarrow>
    (\<exists>a idx g'. map_of dd k = Some a \<and> (\<forall>i\<in>set iice. i < length a) \<and>
         choice g (length X_temp) (min n (int (length X_temp))) = (Inr idx, g') \<and>
         (\<forall>i\<in>set idx. i < length X_temp) \<and> (\<forall>i\<in>set idx. i < length iice) \<and>
         s' = (AList.update k (map (\<lambda>i. X_temp ! i) idx) Xd,
               AList.update k (map (\<lambda>i. map (\<lambda>j. a ! j) iice ! i) idx) sold, g'))"
  using assms
  by (auto simp: sample_field_def getitem_def take_idx_Inr take_idx_Inl Let_def
      split: option.splits sum.splits prod.splits)


lemma sample_field_count_Done:
  assumes "map_of dsize k = Some (Some n)"
    and "sample_field choice dsize dd iice idbc X_temp X_bc k (Xd, sold, g) = Done s'"
  shows "\<exists>a idx g'. map_of dd k = Some a \<and> (\<forall>i\<in>set iice. i < length a) \<and>
         choice g (length X_temp) (min n (int (length X_temp))) = (Inr idx, g') \<and>
         (\<forall>i\<in>set idx. i < length X_temp) \<and> (\<forall>i\<in>set idx. i < length iice) \<and>
         s' = (AList.update k (map (\<lambda>i. X_temp ! i) idx) Xd,
               AList.update k (map (\<lambda>i. a ! (iice ! i)) idx) sold, g')"
proof -
  from sample_field_count_raw[OF assms(1), THEN iffD1, OF assms(2)]
  obtain a idx g' where a: "map_of dd k = Some a" "\<forall>i\<in>set iice. i < length a"
    and c: "choice g (length X_temp) (min n (int (length X_temp))) = (Inr idx, g')"
    and i: "\<forall>i\<in>set idx. i < length X_temp" "\<forall>i\<in>set idx. i < length iice"
    and s: "s' = (AList.update k (map (\<lambda>i. X_temp ! i) idx) Xd,
               AList.update k (map (\<lambda>i. map (\<lambda>j. a ! j) iice ! i) idx) sold, g')"
    by blast
  from i(2) have e: "map (\<lambda>i. map (\<lambda>j. a ! j) iice ! i) idx = map (\<lambda>i. a ! (iice ! i)) idx"
    by (rule map_nth_map)
  have "map_of dd k = Some a \<and> (\<forall>i\<in>set iice. i < length a) \<and>
         choice g (length X_temp) (min n (int (length X_temp))) = (Inr idx, g') \<and>
         (\<forall>i\<in>set idx. i < length X_temp) \<and> (\<forall>i\<in>set idx. i < length iice) \<and>
         s' = (AList.update k (map (\<lambda>i. X_temp ! i) idx) Xd,
               AList.update k (map (\<lambda>i. a ! (iice ! i)) idx) sold, g')"
    using a c i s unfolding e by simp
  then show ?thesis by (intro exI)
qed

subsection \<open>Sampling: the method\<close>

lemma coordinates_at_Inr:
  assumes "coordinates_at self idx = Inr rows"
  shows "\<exists>x y. map_of (X_dict self) ''x'' = Some x \<and> map_of (X_dict self) ''y'' = Some y \<and>
           (\<forall>i\<in>set idx. i < length x) \<and> (\<forall>i\<in>set idx. i < length y) \<and>
           rows = map (\<lambda>v. (x ! v, y ! v)) idx"
proof -
  from assms obtain x y where x: "map_of (X_dict self) ''x'' = Some x"
    and y: "map_of (X_dict self) ''y'' = Some y"
    and b: "\<forall>i\<in>set idx. i < length x" "\<forall>i\<in>set idx. i < length y"
    and r: "rows = zip (map (\<lambda>i. x ! i) idx) (map (\<lambda>i. y ! i) idx)"
    by (auto simp: coordinates_at_def getitem_def take_idx_Inr split: option.splits sum.splits)
  have "zip (map (\<lambda>i. x ! i) idx) (map (\<lambda>i. y ! i) idx) = map (\<lambda>v. (x ! v, y ! v)) idx"
    by (induction idx) simp_all
  with x y b r show ?thesis by simp
qed

lemma get_ice_indices_Inr:
  assumes "get_ice_indices self [] = Inr iice"
  shows "\<exists>icemask. map_of (mask_dict self) ''icemask'' = Some icemask \<and>
           iice = filter (\<lambda>v. icemask ! v < 0) [0..<length icemask]"
  using assms
  by (auto simp: get_ice_indices_def getitem_def nonzero_def Let_def split: option.splits
      intro: filter_cong)

lemma nonzero_positive:
  "nonzero (map (\<lambda>v. 0 < v) DBC) = filter (\<lambda>v. 0 < DBC ! v) [0..<length DBC]"
  by (auto simp: nonzero_def intro: filter_cong)

text \<open>What a returning \<^verbatim>\<open>prepare_training_data\<close> has computed.\<close>

lemma prepare_training_data_Done:
  assumes "prepare_training_data choice g self arg = Done (self', g')"
  shows "\<exists>iice X_temp DBC X_bc Xd sold.
     get_ice_indices self [] = Inr iice \<and> coordinates_at self iice = Inr X_temp \<and>
     map_of (mask_dict self) ''DBC_mask'' = Some DBC \<and>
     coordinates_at self (nonzero (map (\<lambda>v. 0 < v) DBC)) = Inr X_bc \<and>
     run (map (sample_field choice
                 (case arg of None \<Rightarrow> data_size (ISSMmdData.parameters self) | Some d \<Rightarrow> d)
                 (data_dict self) iice (nonzero (map (\<lambda>v. 0 < v) DBC)) X_temp X_bc)
              (map fst (data_dict self))) ([], [], g) = Done (Xd, sold, g') \<and>
     self' = self\<lparr>ISSMmdData.X := Some Xd, ISSMmdData.sol := Some sold\<rparr>"
proof -
  let ?s = "self\<lparr>ISSMmdData.X := Some [], ISSMmdData.sol := Some []\<rparr>"
  have gi: "get_ice_indices ?s [] = get_ice_indices self []"
    by (simp add: get_ice_indices_def Let_def)
  have co: "coordinates_at ?s idx = coordinates_at self idx" for idx
    by (simp add: coordinates_at_def split: sum.splits)
  from assms obtain iice where 1: "get_ice_indices self [] = Inr iice"
    by (cases "get_ice_indices self []") (simp_all add: prepare_training_data_def Let_def gi)
  from assms 1 obtain X_temp where 2: "coordinates_at self iice = Inr X_temp"
    by (cases "coordinates_at self iice") (simp_all add: prepare_training_data_def Let_def gi co)
  from assms 1 2 obtain DBC where 3: "map_of (mask_dict self) ''DBC_mask'' = Some DBC"
    by (cases "map_of (mask_dict self) ''DBC_mask''")
      (simp_all add: prepare_training_data_def Let_def gi co getitem_def)
  let ?idbc = "nonzero (map (\<lambda>v. 0 < v) DBC)"
  from assms 1 2 3 obtain X_bc where 4: "coordinates_at self ?idbc = Inr X_bc"
    by (cases "coordinates_at self ?idbc")
      (simp_all add: prepare_training_data_def Let_def gi co getitem_def)
  let ?r = "run (map (sample_field choice
                 (case arg of None \<Rightarrow> data_size (ISSMmdData.parameters self) | Some d \<Rightarrow> d)
                 (data_dict self) iice ?idbc X_temp X_bc)
              (map fst (data_dict self))) ([], [], g)"
  from assms 1 2 3 4
  have 5: "map_outcome (\<lambda>(Xd, sold, g'). (self\<lparr>ISSMmdData.X := Some Xd, ISSMmdData.sol := Some sold\<rparr>, g')) ?r
      = Done (self', g')"
    by (simp add: prepare_training_data_def Let_def gi co getitem_def)
  then obtain st where 6: "?r = Done st"
    and 7: "(self', g') = (\<lambda>(Xd, sold, g'). (self\<lparr>ISSMmdData.X := Some Xd, ISSMmdData.sol := Some sold\<rparr>, g')) st"
    unfolding map_outcome_Done by blast
  obtain Xd sold g2 where st: "st = (Xd, sold, g2)" by (cases st)
  from 7 st have 8: "g2 = g'" "self' = self\<lparr>ISSMmdData.X := Some Xd, ISSMmdData.sol := Some sold\<rparr>"
    by simp_all
  from 6 st 8 have 9: "?r = Done (Xd, sold, g')" by simp
  have "get_ice_indices self [] = Inr iice \<and> coordinates_at self iice = Inr X_temp \<and>
     map_of (mask_dict self) ''DBC_mask'' = Some DBC \<and>
     coordinates_at self ?idbc = Inr X_bc \<and> ?r = Done (Xd, sold, g') \<and>
     self' = self\<lparr>ISSMmdData.X := Some Xd, ISSMmdData.sol := Some sold\<rparr>"
    using 1 2 3 4 9 8(2) by simp
  then show ?thesis by (intro exI)
qed

lemma sample_field_keys:
  assumes "sample_field choice dsize dd iice idbc X_temp X_bc k (Xd, sold, g) = Done (Xd', sold', g')"
  shows "fst ` set Xd' = fst ` set Xd \<union> (if map_of dsize k = None then {} else {k}) \<and>
         fst ` set sold' = fst ` set sold \<union> (if map_of dsize k = None then {} else {k})"
proof (cases "map_of dsize k")
  case None
  with assms show ?thesis by (simp add: sample_field_skip)
next
  case (Some v)
  show ?thesis
  proof (cases v)
    case None
    with Some have "map_of dsize k = Some None" by simp
    from sample_field_bc_Done[OF this, THEN iffD1, OF assms] obtain a
      where "Xd' = AList.update k X_bc Xd" "sold' = AList.update k (map (\<lambda>i. a ! i) idbc) sold"
      by auto
    with \<open>map_of dsize k = Some v\<close> show ?thesis
      by (simp add: dom_update)
  next
    case (Some n)
    with \<open>map_of dsize k = Some v\<close> have m: "map_of dsize k = Some (Some n)" by simp
    from sample_field_count_Done[OF m assms] obtain a idx
      where "Xd' = AList.update k (map (\<lambda>i. X_temp ! i) idx) Xd"
        "sold' = AList.update k (map (\<lambda>i. a ! (iice ! i)) idx) sold"
      by auto
    with m show ?thesis
      by (simp add: dom_update)
  qed
qed

lemma run_sample_keys:
  assumes "run (map (sample_field choice dsize dd iice idbc X_temp X_bc) ks) (Xd, sold, g)
             = Done (Xd', sold', g')"
  shows "fst ` set Xd' = fst ` set Xd \<union> (set ks \<inter> fst ` set dsize) \<and>
         fst ` set sold' = fst ` set sold \<union> (set ks \<inter> fst ` set dsize)"
  using assms
proof (induction ks arbitrary: Xd sold g)
  case Nil
  then show ?case by simp
next
  case (Cons j ks)
  from Cons.prems obtain s1 where 1: "sample_field choice dsize dd iice idbc X_temp X_bc j (Xd, sold, g) = Done s1"
    and 2: "run (map (sample_field choice dsize dd iice idbc X_temp X_bc) ks) s1 = Done (Xd', sold', g')"
    by (auto simp: run_Cons_Done simp del: run.simps(2))
  obtain X1 sol1 g1 where s1: "s1 = (X1, sol1, g1)" by (cases s1)
  note k1 = sample_field_keys[OF 1[unfolded s1]]
  note k2 = Cons.IH[OF 2[unfolded s1]]
  have d: "map_of dsize j = None \<longleftrightarrow> j \<notin> fst ` set dsize"
    by (simp add: map_of_eq_None_iff)
  from k1 k2 d show ?case by auto
qed

text \<open>
  C5. When \<^verbatim>\<open>prepare_training_data\<close> returns, \<^verbatim>\<open>X\<close> and \<^verbatim>\<open>sol\<close> are dictionaries whose
  keys are exactly the field names that are keys of both \<^verbatim>\<open>data_dict\<close> and \<^verbatim>\<open>data_size\<close>
  (the argument, or the loader's parameter when the argument is left out).
\<close>

theorem prepare_training_data_keys:
  assumes "prepare_training_data choice g self arg = Done (self', g')"
  shows "\<exists>Xd sold. ISSMmdData.X self' = Some Xd \<and> ISSMmdData.sol self' = Some sold \<and>
     fst ` set Xd = fst ` set (data_dict self) \<inter>
        fst ` set (case arg of None \<Rightarrow> data_size (ISSMmdData.parameters self) | Some d \<Rightarrow> d) \<and>
     fst ` set sold = fst ` set (data_dict self) \<inter>
        fst ` set (case arg of None \<Rightarrow> data_size (ISSMmdData.parameters self) | Some d \<Rightarrow> d)"
proof -
  from prepare_training_data_Done[OF assms] obtain iice X_temp DBC X_bc Xd sold where
    "map_of (mask_dict self) ''DBC_mask'' = Some DBC" and
    r: "run (map (sample_field choice
                 (case arg of None \<Rightarrow> data_size (ISSMmdData.parameters self) | Some d \<Rightarrow> d)
                 (data_dict self) iice (nonzero (map (\<lambda>v. 0 < v) DBC)) X_temp X_bc)
              (map fst (data_dict self))) ([], [], g) = Done (Xd, sold, g')"
    and s: "self' = self\<lparr>ISSMmdData.X := Some Xd, ISSMmdData.sol := Some sold\<rparr>"
    by blast
  from run_sample_keys[OF r] s
  have "ISSMmdData.X self' = Some Xd \<and> ISSMmdData.sol self' = Some sold \<and>
     fst ` set Xd = fst ` set (data_dict self) \<inter>
        fst ` set (case arg of None \<Rightarrow> data_size (ISSMmdData.parameters self) | Some d \<Rightarrow> d) \<and>
     fst ` set sold = fst ` set (data_dict self) \<inter>
        fst ` set (case arg of None \<Rightarrow> data_size (ISSMmdData.parameters self) | Some d \<Rightarrow> d)"
    by simp
  then show ?thesis by (intro exI)
qed

lemma sample_field_other:
  assumes "sample_field choice dsize dd iice idbc X_temp X_bc j (Xd, sold, g) = Done (Xd', sold', g')"
    and "j \<noteq> k"
  shows "map_of Xd' k = map_of Xd k \<and> map_of sold' k = map_of sold k"
proof (cases "map_of dsize j")
  case None
  with assms show ?thesis by (simp add: sample_field_skip)
next
  case (Some v)
  show ?thesis
  proof (cases v)
    case None
    with Some have "map_of dsize j = Some None" by simp
    from sample_field_bc_Done[OF this, THEN iffD1, OF assms(1)] obtain a
      where "Xd' = AList.update j X_bc Xd" "sold' = AList.update j (map (\<lambda>i. a ! i) idbc) sold"
      by auto
    with assms(2) show ?thesis
      by (simp add: update_conv)
  next
    case (Some n)
    with \<open>map_of dsize j = Some v\<close> have m: "map_of dsize j = Some (Some n)" by simp
    from sample_field_count_Done[OF m assms(1)] obtain a idx
      where "Xd' = AList.update j (map (\<lambda>i. X_temp ! i) idx) Xd"
        "sold' = AList.update j (map (\<lambda>i. a ! (iice ! i)) idx) sold"
      by auto
    with assms(2) show ?thesis
      by (simp add: update_conv)
  qed
qed

lemma run_sample_bc:
  assumes r: "run (map (sample_field choice dsize dd iice idbc X_temp X_bc) ks) st = Done (Xd', sold', g')"
    and k: "k \<in> set ks" and m: "map_of dsize k = Some None" and a: "map_of dd k = Some a"
  shows "map_of Xd' k = Some X_bc \<and> map_of sold' k = Some (map (\<lambda>i. a ! i) idbc)"
proof -
  let ?f = "sample_field choice dsize dd iice idbc X_temp X_bc"
  let ?Q = "\<lambda>st. map_of (fst st) k = Some X_bc \<and> map_of (fst (snd st)) k = Some (map (\<lambda>i. a ! i) idbc)"
  have est: "?Q s'" if "?f k s = Done s'" for s s'
  proof -
    obtain Xd sold g where s: "s = (Xd, sold, g)" by (cases s)
    from sample_field_bc_Done[OF m, THEN iffD1, OF that[unfolded s]] a
    have "s' = (AList.update k X_bc Xd, AList.update k (map (\<lambda>i. a ! i) idbc) sold, g)"
      by auto
    then show ?thesis by (simp add: update_conv)
  qed
  have pres: "?Q s'" if d: "?f j s = Done s'" and q: "?Q s" for j s s'
  proof (cases "j = k")
    case True
    with d est show ?thesis by simp
  next
    case False
    obtain Xd sold g where s: "s = (Xd, sold, g)" by (cases s)
    obtain Xd1 sold1 g1 where s': "s' = (Xd1, sold1, g1)" by (cases s')
    from sample_field_other[OF d[unfolded s s'] False] q s s' show ?thesis by simp
  qed
  from run_map_establish[where Q = ?Q, OF r k est pres] show ?thesis by simp
qed

lemma run_sample_count:
  assumes c: "choice_no_replace choice"
    and r: "run (map (sample_field choice dsize dd iice idbc X_temp X_bc) ks) st = Done (Xd', sold', g')"
    and k: "k \<in> set ks" and m: "map_of dsize k = Some (Some n)" and n: "0 \<le> n"
    and a: "map_of dd k = Some a"
  shows "\<exists>idx. distinct idx \<and> (\<forall>i\<in>set idx. i < length X_temp) \<and> (\<forall>i\<in>set idx. i < length iice) \<and>
           int (length idx) = min n (int (length X_temp)) \<and>
           map_of Xd' k = Some (map (\<lambda>i. X_temp ! i) idx) \<and>
           map_of sold' k = Some (map (\<lambda>i. a ! (iice ! i)) idx)"
proof -
  let ?f = "sample_field choice dsize dd iice idbc X_temp X_bc"
  let ?Q = "\<lambda>st. \<exists>idx. distinct idx \<and> (\<forall>i\<in>set idx. i < length X_temp) \<and>
           (\<forall>i\<in>set idx. i < length iice) \<and>
           int (length idx) = min n (int (length X_temp)) \<and>
           map_of (fst st) k = Some (map (\<lambda>i. X_temp ! i) idx) \<and>
           map_of (fst (snd st)) k = Some (map (\<lambda>i. a ! (iice ! i)) idx)"
  have est: "?Q s'" if "?f k s = Done s'" for s s'
  proof -
    obtain Xd sold g where s: "s = (Xd, sold, g)" by (cases s)
    from sample_field_count_Done[OF m that[unfolded s]] a obtain idx g1
      where ch: "choice g (length X_temp) (min n (int (length X_temp))) = (Inr idx, g1)"
        and b: "\<forall>i\<in>set idx. i < length X_temp" "\<forall>i\<in>set idx. i < length iice"
        and s': "s' = (AList.update k (map (\<lambda>i. X_temp ! i) idx) Xd,
               AList.update k (map (\<lambda>i. a ! (iice ! i)) idx) sold, g1)"
      by auto
    from n have "0 \<le> min n (int (length X_temp)) \<and> min n (int (length X_temp)) \<le> int (length X_temp)"
      by simp
    with c obtain idx2 where "fst (choice g (length X_temp) (min n (int (length X_temp)))) = Inr idx2"
      and p: "length idx2 = nat (min n (int (length X_temp)))" "distinct idx2"
      unfolding choice_no_replace_def by blast
    with ch have "idx2 = idx" by simp
    with p n have "distinct idx" "int (length idx) = min n (int (length X_temp))"
      by simp_all
    with b s' have "distinct idx \<and> (\<forall>i\<in>set idx. i < length X_temp) \<and>
           (\<forall>i\<in>set idx. i < length iice) \<and>
           int (length idx) = min n (int (length X_temp)) \<and>
           map_of (fst s') k = Some (map (\<lambda>i. X_temp ! i) idx) \<and>
           map_of (fst (snd s')) k = Some (map (\<lambda>i. a ! (iice ! i)) idx)"
      by (simp add: update_conv)
    then show ?thesis by (intro exI)
  qed
  have pres: "?Q s'" if d: "?f j s = Done s'" and q: "?Q s" for j s s'
  proof (cases "j = k")
    case True
    with d est show ?thesis by simp
  next
    case False
    obtain Xd sold g where s: "s = (Xd, sold, g)" by (cases s)
    obtain Xd1 sold1 g1 where s': "s' = (Xd1, sold1, g1)" by (cases s')
    from sample_field_other[OF d[unfolded s s'] False] q s s' show ?thesis by simp
  qed
  from run_map_establish[where Q = ?Q, OF r k est pres] show ?thesis by simp
qed

lemma map_of_key: "map_of d k = Some v \<Longrightarrow> k \<in> set (map fst d)"
  by (auto dest: map_of_SomeD intro: rev_image_eqI)

text \<open>
  C1. Let the sampler meet \<open>choice_no_replace\<close>, and let \<^verbatim>\<open>prepare_training_data\<close> return.
  For a field \<open>k\<close> of \<^verbatim>\<open>data_dict\<close> whose \<^verbatim>\<open>data_size\<close> is a count \<open>n \<ge> 0\<close> (so for every
  positive count), there is a list \<open>idx\<close> of pairwise distinct row indices into the ice
  vertices \<open>iice\<close> (the vertices with a negative ice mask, \<^verbatim>\<open>max_data_size\<close> of them) such
  that row \<open>i\<close> of \<^verbatim>\<open>X[k]\<close> holds the coordinates, and row \<open>i\<close> of \<^verbatim>\<open>sol[k]\<close> the field
  value, of the ice vertex \<open>iice ! (idx ! i)\<close>; both have \<open>min n max_data_size\<close> rows.
\<close>

theorem prepare_training_data_samples:
  assumes "choice_no_replace choice"
    and "prepare_training_data choice g self arg = Done (self', g')"
    and "map_of (case arg of None \<Rightarrow> data_size (ISSMmdData.parameters self) | Some d \<Rightarrow> d) k
           = Some (Some n)"
    and "0 \<le> n"
    and "map_of (data_dict self) k = Some a"
  shows "\<exists>icemask x y iice idx Xd sold Xk solk.
      map_of (mask_dict self) ''icemask'' = Some icemask \<and>
      map_of (X_dict self) ''x'' = Some x \<and> map_of (X_dict self) ''y'' = Some y \<and>
      iice = filter (\<lambda>v. icemask ! v < 0) [0..<length icemask] \<and>
      distinct idx \<and> (\<forall>i\<in>set idx. i < length iice) \<and>
      ISSMmdData.X self' = Some Xd \<and> map_of Xd k = Some Xk \<and>
      ISSMmdData.sol self' = Some sold \<and> map_of sold k = Some solk \<and>
      Xk = map (\<lambda>i. (x ! (iice ! i), y ! (iice ! i))) idx \<and>
      solk = map (\<lambda>i. a ! (iice ! i)) idx \<and>
      int (length Xk) = min n (int (length iice)) \<and>
      int (length solk) = min n (int (length iice))"
proof -
  let ?dsize = "case arg of None \<Rightarrow> data_size (ISSMmdData.parameters self) | Some d \<Rightarrow> d"
  from prepare_training_data_Done[OF assms(2)] obtain iice X_temp DBC X_bc Xd sold where
    gi: "get_ice_indices self [] = Inr iice" and co: "coordinates_at self iice = Inr X_temp"
    and "map_of (mask_dict self) ''DBC_mask'' = Some DBC"
    and r: "run (map (sample_field choice ?dsize (data_dict self) iice
                  (nonzero (map (\<lambda>v. 0 < v) DBC)) X_temp X_bc)
              (map fst (data_dict self))) ([], [], g) = Done (Xd, sold, g')"
    and s: "self' = self\<lparr>ISSMmdData.X := Some Xd, ISSMmdData.sol := Some sold\<rparr>"
    by blast
  from get_ice_indices_Inr[OF gi] obtain icemask
    where im: "map_of (mask_dict self) ''icemask'' = Some icemask"
      and ii: "iice = filter (\<lambda>v. icemask ! v < 0) [0..<length icemask]" by blast
  from coordinates_at_Inr[OF co] obtain x y
    where x: "map_of (X_dict self) ''x'' = Some x" and y: "map_of (X_dict self) ''y'' = Some y"
      and xt: "X_temp = map (\<lambda>v. (x ! v, y ! v)) iice" by blast
  from xt have len: "length X_temp = length iice" by simp
  from run_sample_count[OF assms(1) r map_of_key[OF assms(5)] assms(3,4,5)] obtain idx
    where d: "distinct idx" and b: "\<forall>i\<in>set idx. i < length iice"
      and l: "int (length idx) = min n (int (length X_temp))"
      and mx: "map_of Xd k = Some (map (\<lambda>i. X_temp ! i) idx)"
      and ms: "map_of sold k = Some (map (\<lambda>i. a ! (iice ! i)) idx)" by blast
  from b have e: "map (\<lambda>i. X_temp ! i) idx = map (\<lambda>i. (x ! (iice ! i), y ! (iice ! i))) idx"
    unfolding xt by (rule map_nth_map)
  let ?Xk = "map (\<lambda>i. (x ! (iice ! i), y ! (iice ! i))) idx"
  let ?solk = "map (\<lambda>i. a ! (iice ! i)) idx"
  have "map_of (mask_dict self) ''icemask'' = Some icemask \<and>
      map_of (X_dict self) ''x'' = Some x \<and> map_of (X_dict self) ''y'' = Some y \<and>
      iice = filter (\<lambda>v. icemask ! v < 0) [0..<length icemask] \<and>
      distinct idx \<and> (\<forall>i\<in>set idx. i < length iice) \<and>
      ISSMmdData.X self' = Some Xd \<and> map_of Xd k = Some ?Xk \<and>
      ISSMmdData.sol self' = Some sold \<and> map_of sold k = Some ?solk \<and>
      ?Xk = map (\<lambda>i. (x ! (iice ! i), y ! (iice ! i))) idx \<and>
      ?solk = map (\<lambda>i. a ! (iice ! i)) idx \<and>
      int (length ?Xk) = min n (int (length iice)) \<and>
      int (length ?solk) = min n (int (length iice))"
    using im x y ii d b s mx ms l len e by simp
  then show ?thesis by (intro exI)
qed

lemma prepare_training_data_boundary_once:
  assumes "prepare_training_data choice g self arg = Done (self', g')"
    and "map_of (case arg of None \<Rightarrow> data_size (ISSMmdData.parameters self) | Some d \<Rightarrow> d) k
           = Some None"
    and "map_of (data_dict self) k = Some a"
  shows "\<exists>DBC x y Xd sold.
      map_of (mask_dict self) ''DBC_mask'' = Some DBC \<and>
      map_of (X_dict self) ''x'' = Some x \<and> map_of (X_dict self) ''y'' = Some y \<and>
      self' = self\<lparr>ISSMmdData.X := Some Xd, ISSMmdData.sol := Some sold\<rparr> \<and>
      map_of Xd k = Some (map (\<lambda>v. (x ! v, y ! v)) (filter (\<lambda>v. 0 < DBC ! v) [0..<length DBC])) \<and>
      map_of sold k = Some (map (\<lambda>v. a ! v) (filter (\<lambda>v. 0 < DBC ! v) [0..<length DBC]))"
proof -
  let ?dsize = "case arg of None \<Rightarrow> data_size (ISSMmdData.parameters self) | Some d \<Rightarrow> d"
  from prepare_training_data_Done[OF assms(1)] obtain iice X_temp DBC X_bc Xd sold where
    dm: "map_of (mask_dict self) ''DBC_mask'' = Some DBC"
    and co: "coordinates_at self (nonzero (map (\<lambda>v. 0 < v) DBC)) = Inr X_bc"
    and r: "run (map (sample_field choice ?dsize (data_dict self) iice
                  (nonzero (map (\<lambda>v. 0 < v) DBC)) X_temp X_bc)
              (map fst (data_dict self))) ([], [], g) = Done (Xd, sold, g')"
    and s: "self' = self\<lparr>ISSMmdData.X := Some Xd, ISSMmdData.sol := Some sold\<rparr>"
    by blast
  let ?idbc = "filter (\<lambda>v. 0 < DBC ! v) [0..<length DBC]"
  from coordinates_at_Inr[OF co] obtain x y
    where x: "map_of (X_dict self) ''x'' = Some x" and y: "map_of (X_dict self) ''y'' = Some y"
      and xb: "X_bc = map (\<lambda>v. (x ! v, y ! v)) ?idbc"
    unfolding nonzero_positive by blast
  from run_sample_bc[OF r map_of_key[OF assms(3)] assms(2,3)]
  have "map_of Xd k = Some X_bc" "map_of sold k = Some (map (\<lambda>v. a ! v) ?idbc)"
    unfolding nonzero_positive by simp_all
  with dm x y s xb
  have "map_of (mask_dict self) ''DBC_mask'' = Some DBC \<and>
      map_of (X_dict self) ''x'' = Some x \<and> map_of (X_dict self) ''y'' = Some y \<and>
      self' = self\<lparr>ISSMmdData.X := Some Xd, ISSMmdData.sol := Some sold\<rparr> \<and>
      map_of Xd k = Some (map (\<lambda>v. (x ! v, y ! v)) ?idbc) \<and>
      map_of sold k = Some (map (\<lambda>v. a ! v) ?idbc)"
    by simp
  then show ?thesis by (intro exI)
qed

text \<open>
  C2. Let \<^verbatim>\<open>prepare_training_data\<close> return twice in a row on a loader, whatever the sampler
  and the state of the generator at each call. For a field \<open>k\<close> of \<^verbatim>\<open>data_dict\<close> whose
  \<^verbatim>\<open>data_size\<close> is \<^verbatim>\<open>None\<close>, \<^verbatim>\<open>X[k]\<close> after the first call holds the coordinates of all
  vertices with a positive \<^verbatim>\<open>DBC_mask\<close>, in increasing order of the vertices, \<^verbatim>\<open>sol[k]\<close>
  holds the field values at these vertices, and the second call yields the same \<^verbatim>\<open>X[k]\<close>
  and \<^verbatim>\<open>sol[k]\<close>.
\<close>

theorem prepare_training_data_boundary:
  assumes "prepare_training_data choice g self arg = Done (self1, g1)"
    and "prepare_training_data choice2 g2 self1 arg = Done (self2, g3)"
    and "map_of (case arg of None \<Rightarrow> data_size (ISSMmdData.parameters self) | Some d \<Rightarrow> d) k
           = Some None"
    and "map_of (data_dict self) k = Some a"
  shows "\<exists>DBC x y idbc Xd sold Xd2 sold2.
      map_of (mask_dict self) ''DBC_mask'' = Some DBC \<and>
      map_of (X_dict self) ''x'' = Some x \<and> map_of (X_dict self) ''y'' = Some y \<and>
      idbc = filter (\<lambda>v. 0 < DBC ! v) [0..<length DBC] \<and>
      ISSMmdData.X self1 = Some Xd \<and> map_of Xd k = Some (map (\<lambda>v. (x ! v, y ! v)) idbc) \<and>
      ISSMmdData.sol self1 = Some sold \<and> map_of sold k = Some (map (\<lambda>v. a ! v) idbc) \<and>
      ISSMmdData.X self2 = Some Xd2 \<and> map_of Xd2 k = map_of Xd k \<and>
      ISSMmdData.sol self2 = Some sold2 \<and> map_of sold2 k = map_of sold k"
proof -
  from prepare_training_data_boundary_once[OF assms(1,3,4)] obtain DBC x y Xd sold where
    1: "map_of (mask_dict self) ''DBC_mask'' = Some DBC"
      "map_of (X_dict self) ''x'' = Some x" "map_of (X_dict self) ''y'' = Some y"
    and s1: "self1 = self\<lparr>ISSMmdData.X := Some Xd, ISSMmdData.sol := Some sold\<rparr>"
    and v1: "map_of Xd k = Some (map (\<lambda>v. (x ! v, y ! v)) (filter (\<lambda>v. 0 < DBC ! v) [0..<length DBC]))"
      "map_of sold k = Some (map (\<lambda>v. a ! v) (filter (\<lambda>v. 0 < DBC ! v) [0..<length DBC]))"
    by blast
  have m2: "map_of (case arg of None \<Rightarrow> data_size (ISSMmdData.parameters self1) | Some d \<Rightarrow> d) k
           = Some None" using assms(3) s1 by (cases arg) simp_all
  have a2: "map_of (data_dict self1) k = Some a" using assms(4) s1 by simp
  from prepare_training_data_boundary_once[OF assms(2) m2 a2] obtain DBC' x' y' Xd2 sold2 where
    2: "map_of (mask_dict self1) ''DBC_mask'' = Some DBC'"
      "map_of (X_dict self1) ''x'' = Some x'" "map_of (X_dict self1) ''y'' = Some y'"
    and s2: "self2 = self1\<lparr>ISSMmdData.X := Some Xd2, ISSMmdData.sol := Some sold2\<rparr>"
    and v2: "map_of Xd2 k = Some (map (\<lambda>v. (x' ! v, y' ! v)) (filter (\<lambda>v. 0 < DBC' ! v) [0..<length DBC']))"
      "map_of sold2 k = Some (map (\<lambda>v. a ! v) (filter (\<lambda>v. 0 < DBC' ! v) [0..<length DBC']))"
    by blast
  from 1 2 s1 have "DBC' = DBC" "x' = x" "y' = y" by simp_all
  with v1 v2 have e: "map_of Xd2 k = map_of Xd k" "map_of sold2 k = map_of sold k" by simp_all
  let ?idbc = "filter (\<lambda>v. 0 < DBC ! v) [0..<length DBC]"
  have "map_of (mask_dict self) ''DBC_mask'' = Some DBC \<and>
      map_of (X_dict self) ''x'' = Some x \<and> map_of (X_dict self) ''y'' = Some y \<and>
      ?idbc = filter (\<lambda>v. 0 < DBC ! v) [0..<length DBC] \<and>
      ISSMmdData.X self1 = Some Xd \<and> map_of Xd k = Some (map (\<lambda>v. (x ! v, y ! v)) ?idbc) \<and>
      ISSMmdData.sol self1 = Some sold \<and> map_of sold k = Some (map (\<lambda>v. a ! v) ?idbc) \<and>
      ISSMmdData.X self2 = Some Xd2 \<and> map_of Xd2 k = map_of Xd k \<and>
      ISSMmdData.sol self2 = Some sold2 \<and> map_of sold2 k = map_of sold k"
    using 1 s1 s2 v1 e by simp
  then show ?thesis by (intro exI)
qed

lemma upt_4: "[0..<4] = [0, 1, 2, 3]" "[0..<3] = [0, 1, 2]"
  by (simp_all add: upt_rec)

lemma ex_prepare:
  "prepare_training_data ex_choice () ex_loaded None = Done (ex_prepared, ())"
  by (simp add: prepare_training_data_def Let_def ex_loaded_def ex_prepared_def ex_param_def
      get_ice_indices_def getitem_def nonzero_def coordinates_at_def take_idx_def sample_field_def
      ex_choice_def upt_4)

lemma ex_prepare_again:
  "prepare_training_data ex_choice () ex_prepared None = Done (ex_prepared, ())"
  by (simp add: prepare_training_data_def Let_def ex_loaded_def ex_prepared_def ex_param_def
      get_ice_indices_def getitem_def nonzero_def coordinates_at_def take_idx_def sample_field_def
      ex_choice_def upt_4)

theorem prepare_training_data_keys_witness:
  "prepare_training_data ex_choice () ex_loaded None = Done (ex_prepared, ()) \<and>
   (\<exists>Xd sold. ISSMmdData.X ex_prepared = Some Xd \<and> ISSMmdData.sol ex_prepared = Some sold \<and>
      fst ` set Xd = {''u'', ''C''} \<and> fst ` set sold = {''u'', ''C''})"
proof -
  have k1: "fst ` set (data_dict ex_loaded) = {''u'', ''v'', ''s'', ''H'', ''C'', ''B'', ''vel''}"
    by (simp add: ex_loaded_def)
  have k2: "fst ` set (data_size (ISSMmdData.parameters ex_loaded)) = {''u'', ''C''}"
    by (simp add: ex_loaded_def ex_param_def)
  have k: "{''u'', ''v'', ''s'', ''H'', ''C'', ''B'', ''vel''} \<inter> {''u'', ''C''} = {''u'', ''C''}"
    by simp
  note t = prepare_training_data_keys[OF ex_prepare, unfolded option.case k1 k2 k]
  with ex_prepare show ?thesis by (rule conjI)
qed

theorem prepare_training_data_samples_witness:
  "choice_no_replace ex_choice \<and>
   prepare_training_data ex_choice () ex_loaded None = Done (ex_prepared, ()) \<and>
   map_of (data_size (ISSMmdData.parameters ex_loaded)) ''u'' = Some (Some 100) \<and>
   map_of (data_dict ex_loaded) ''u'' = Some [3, 0, 6, 0] \<and>
   (\<exists>(idx::nat list) Xd sold Xk solk. distinct idx \<and> (\<forall>i\<in>set idx. i < 3) \<and>
      ISSMmdData.X ex_prepared = Some Xd \<and> map_of Xd ''u'' = Some Xk \<and>
      ISSMmdData.sol ex_prepared = Some sold \<and> map_of sold ''u'' = Some solk \<and>
      length Xk = 3 \<and> length solk = 3)"
proof -
  have m: "map_of (case None of None \<Rightarrow> data_size (ISSMmdData.parameters ex_loaded) | Some d \<Rightarrow> d) ''u''
      = Some (Some 100)"
    by (simp add: ex_loaded_def ex_param_def)
  have a: "map_of (data_dict ex_loaded) ''u'' = Some [3, 0, 6, 0]"
    by (simp add: ex_loaded_def)
  have n: "(0::int) \<le> 100" by simp
  from prepare_training_data_samples[OF ex_choice_ok ex_prepare m n a]
  obtain icemask iice idx Xd sold Xk solk where
    im: "map_of (mask_dict ex_loaded) ''icemask'' = Some icemask"
    and ii: "iice = filter (\<lambda>v. icemask ! v < 0) [0..<length icemask]"
    and d: "distinct idx" "\<forall>i\<in>set idx. i < length iice"
    and x: "ISSMmdData.X ex_prepared = Some Xd" "map_of Xd ''u'' = Some Xk"
      "ISSMmdData.sol ex_prepared = Some sold" "map_of sold ''u'' = Some solk"
    and l: "int (length Xk) = min 100 (int (length iice))"
      "int (length solk) = min 100 (int (length iice))"
    by blast
  from im have "icemask = [-1, -1, 1, -1]" by (simp add: ex_loaded_def)
  with ii have "length iice = 3" by (simp add: upt_4)
  with d l have "\<forall>i\<in>set idx. i < 3" "length Xk = 3" "length solk = 3" by simp_all
  with d(1) x have "\<exists>(idx::nat list) Xd sold Xk solk. distinct idx \<and> (\<forall>i\<in>set idx. i < 3) \<and>
      ISSMmdData.X ex_prepared = Some Xd \<and> map_of Xd ''u'' = Some Xk \<and>
      ISSMmdData.sol ex_prepared = Some sold \<and> map_of sold ''u'' = Some solk \<and>
      length Xk = 3 \<and> length solk = 3" by blast
  with ex_choice_ok ex_prepare m a show ?thesis by (intro conjI) simp_all
qed

theorem prepare_training_data_boundary_witness:
  "prepare_training_data ex_choice () ex_loaded None = Done (ex_prepared, ()) \<and>
   prepare_training_data ex_choice () ex_prepared None = Done (ex_prepared, ()) \<and>
   map_of (data_size (ISSMmdData.parameters ex_loaded)) ''C'' = Some None \<and>
   map_of (data_dict ex_loaded) ''C'' = Some [30, 31, 32, 33] \<and>
   (\<exists>Xd sold. ISSMmdData.X ex_prepared = Some Xd \<and> map_of Xd ''C'' = Some [(0, 0), (3, 1)] \<and>
      ISSMmdData.sol ex_prepared = Some sold \<and> map_of sold ''C'' = Some [30, 33])"
proof -
  have m: "map_of (case None of None \<Rightarrow> data_size (ISSMmdData.parameters ex_loaded) | Some d \<Rightarrow> d) ''C''
      = Some None"
    by (simp add: ex_loaded_def ex_param_def)
  have a: "map_of (data_dict ex_loaded) ''C'' = Some [30, 31, 32, 33]"
    by (simp add: ex_loaded_def)
  from prepare_training_data_boundary[OF ex_prepare ex_prepare_again m a]
  obtain DBC x y idbc Xd sold where
    f: "map_of (mask_dict ex_loaded) ''DBC_mask'' = Some DBC"
      "map_of (X_dict ex_loaded) ''x'' = Some x" "map_of (X_dict ex_loaded) ''y'' = Some y"
    and i: "idbc = filter (\<lambda>v. 0 < DBC ! v) [0..<length DBC]"
    and r: "ISSMmdData.X ex_prepared = Some Xd" "map_of Xd ''C'' = Some (map (\<lambda>v. (x ! v, y ! v)) idbc)"
      "ISSMmdData.sol ex_prepared = Some sold"
      "map_of sold ''C'' = Some (map (\<lambda>v. [30, 31, 32, 33] ! v) idbc)"
    by blast
  from f have "DBC = [1, 0, 0, 1]" "x = [0, 1, 2, 3]" "y = [0, 0, 1, 1]"
    by (simp_all add: ex_loaded_def)
  with i r(2,4) have "map_of Xd ''C'' = Some [(0, 0), (3, 1)]" "map_of sold ''C'' = Some [30, 33]"
    by (simp_all add: upt_4)
  with r(1,3) have "\<exists>Xd sold. ISSMmdData.X ex_prepared = Some Xd \<and>
      map_of Xd ''C'' = Some [(0, 0), (3, 1)] \<and>
      ISSMmdData.sol ex_prepared = Some sold \<and> map_of sold ''C'' = Some [30, 33]" by blast
  with ex_prepare ex_prepare_again m a show ?thesis by (intro conjI) simp_all
qed

subsection \<open>Keys of \<^verbatim>\<open>data_size\<close> that name no field\<close>

lemma outcome_state_map_outcome:
  "outcome_state (map_outcome f r) = f (outcome_state r)"
  by (cases r) simp_all

lemma sample_field_delete:
  "j \<noteq> k \<Longrightarrow>
   sample_field choice (AList.delete k dsize) dd iice idbc X_temp X_bc j
     = sample_field choice dsize dd iice idbc X_temp X_bc j"
  by (rule ext) (simp add: sample_field_def delete_conv)

lemma sample_field_state_keys:
  assumes "fst ` set Xd \<subseteq> K" and "fst ` set sold \<subseteq> K" and "map_of dsize j \<noteq> None \<longrightarrow> j \<in> K"
  shows "case outcome_state (sample_field choice dsize dd iice idbc X_temp X_bc j (Xd, sold, g)) of
           (Xd', sold', g') \<Rightarrow> fst ` set Xd' \<subseteq> K \<and> fst ` set sold' \<subseteq> K"
  using assms
  by (auto simp: sample_field_def Let_def dom_update
      split: option.splits sum.splits prod.splits)

lemma run_sample_state_keys:
  "case outcome_state (run (map (sample_field choice dsize dd iice idbc X_temp X_bc) ks) ([], [], g)) of
     (Xd, sold, g') \<Rightarrow> fst ` set Xd \<subseteq> set ks \<inter> fst ` set dsize \<and>
                     fst ` set sold \<subseteq> set ks \<inter> fst ` set dsize"
proof -
  let ?K = "set ks \<inter> fst ` set dsize"
  let ?Q = "\<lambda>st. case st of (Xd, sold, g') \<Rightarrow> fst ` set Xd \<subseteq> ?K \<and> fst ` set sold \<subseteq> ?K"
  have step: "?Q (outcome_state (sample_field choice dsize dd iice idbc X_temp X_bc j s))"
    if j: "j \<in> set ks" and q: "?Q s" for j s
  proof -
    obtain Xd sold g1 where s: "s = (Xd, sold, g1)" by (cases s)
    from j have "map_of dsize j \<noteq> None \<longrightarrow> j \<in> ?K"
      by (simp add: map_of_eq_None_iff)
    with q s show ?thesis
      using sample_field_state_keys[where Xd = Xd and K = ?K and sold = sold and dsize = dsize
          and j = j and choice = choice and dd = dd and iice = iice and idbc = idbc
          and X_temp = X_temp and X_bc = X_bc and g = g1]
      by simp
  qed
  have "?Q ([], [], g)" by simp
  from run_map_invariant[where Q = ?Q, OF this step] show ?thesis by simp
qed

text \<open>The state that \<^verbatim>\<open>prepare_training_data\<close> leaves, whether it returns or raises.\<close>

lemma prepare_training_data_state:
  "\<exists>Xd sold.
     fst (outcome_state (prepare_training_data choice g self arg))
       = self\<lparr>ISSMmdData.X := Some Xd, ISSMmdData.sol := Some sold\<rparr> \<and>
     fst ` set Xd \<subseteq> fst ` set (data_dict self) \<inter>
        fst ` set (case arg of None \<Rightarrow> data_size (ISSMmdData.parameters self) | Some d \<Rightarrow> d) \<and>
     fst ` set sold \<subseteq> fst ` set (data_dict self) \<inter>
        fst ` set (case arg of None \<Rightarrow> data_size (ISSMmdData.parameters self) | Some d \<Rightarrow> d)"
proof -
  let ?dsize = "case arg of None \<Rightarrow> data_size (ISSMmdData.parameters self) | Some d \<Rightarrow> d"
  let ?s = "self\<lparr>ISSMmdData.X := Some [], ISSMmdData.sol := Some []\<rparr>"
  let ?P = "\<lambda>t. \<exists>Xd sold. t = self\<lparr>ISSMmdData.X := Some Xd, ISSMmdData.sol := Some sold\<rparr> \<and>
     fst ` set Xd \<subseteq> fst ` set (data_dict self) \<inter> fst ` set ?dsize \<and>
     fst ` set sold \<subseteq> fst ` set (data_dict self) \<inter> fst ` set ?dsize"
  have early: "?P ?s"
    by (rule exI[of _ "[]"], rule exI[of _ "[]"]) simp
  have late: "?P (fst (outcome_state (map_outcome
        (\<lambda>(Xd, sold, g'). (?s\<lparr>ISSMmdData.X := Some Xd, ISSMmdData.sol := Some sold\<rparr>, g'))
        (run (map (sample_field choice ?dsize (data_dict self) iice idbc X_temp X_bc)
                  (map fst (data_dict self))) ([], [], g)))))"
    for iice idbc X_temp X_bc
  proof -
    let ?r = "run (map (sample_field choice ?dsize (data_dict self) iice idbc X_temp X_bc)
                  (map fst (data_dict self))) ([], [], g)"
    obtain Xd sold g1 where st: "outcome_state ?r = (Xd, sold, g1)" by (cases "outcome_state ?r")
    from run_sample_state_keys[where choice = choice and dsize = ?dsize
        and dd = "data_dict self" and iice = iice and idbc = idbc and X_temp = X_temp
        and X_bc = X_bc and ks = "map fst (data_dict self)" and g = g] st
    have "fst ` set Xd \<subseteq> fst ` set (data_dict self) \<inter> fst ` set ?dsize"
      "fst ` set sold \<subseteq> fst ` set (data_dict self) \<inter> fst ` set ?dsize" by simp_all
    then show ?thesis
      unfolding outcome_state_map_outcome st
      by (intro exI[of _ Xd] exI[of _ sold]) simp
  qed
  show ?thesis
    unfolding prepare_training_data_def Let_def
    using early late
    by (simp split: sum.splits)
qed

lemma prepare_training_data_delete:
  assumes "k \<notin> fst ` set (data_dict self)"
  shows "prepare_training_data choice g self (Some (AList.delete k dsize))
           = prepare_training_data choice g self (Some dsize)"
proof -
  have e: "map (sample_field choice (AList.delete k dsize) (data_dict self) iice idbc X_temp X_bc \<circ> fst)
            (data_dict self)
      = map (sample_field choice dsize (data_dict self) iice idbc X_temp X_bc \<circ> fst)
            (data_dict self)" for iice idbc X_temp X_bc
  proof (rule map_cong[OF refl])
    fix p assume "p \<in> set (data_dict self)"
    with assms have "fst p \<noteq> k" by auto
    from sample_field_delete[OF this]
    show "(sample_field choice (AList.delete k dsize) (data_dict self) iice idbc X_temp X_bc \<circ> fst) p
      = (sample_field choice dsize (data_dict self) iice idbc X_temp X_bc \<circ> fst) p"
      by simp
  qed
  show ?thesis
    by (simp add: prepare_training_data_def Let_def e split: sum.splits)
qed

text \<open>
  C10. A key \<open>k\<close> of \<^verbatim>\<open>data_size\<close> that names no field of \<^verbatim>\<open>data_dict\<close> is ignored:
  \<^verbatim>\<open>prepare_training_data\<close> does exactly what it does without that key (the same return or
  the same raise, the same state), and in the state it leaves, \<^verbatim>\<open>X\<close> and \<^verbatim>\<open>sol\<close> are
  dictionaries without the key \<open>k\<close>; they are empty when no key of \<^verbatim>\<open>data_size\<close> names a
  field.
\<close>

theorem prepare_training_data_unknown_key:
  assumes "k \<notin> fst ` set (data_dict self)"
  shows "prepare_training_data choice g self (Some dsize)
           = prepare_training_data choice g self (Some (AList.delete k dsize)) \<and>
    (\<exists>Xd sold.
       ISSMmdData.X (fst (outcome_state (prepare_training_data choice g self (Some dsize)))) = Some Xd \<and>
       ISSMmdData.sol (fst (outcome_state (prepare_training_data choice g self (Some dsize)))) = Some sold \<and>
       k \<notin> fst ` set Xd \<and> k \<notin> fst ` set sold \<and>
       (fst ` set (data_dict self) \<inter> fst ` set dsize = {} \<longrightarrow> Xd = [] \<and> sold = []))"
proof -
  from prepare_training_data_state[of choice g self "Some dsize"] obtain Xd sold where
    st: "fst (outcome_state (prepare_training_data choice g self (Some dsize)))
       = self\<lparr>ISSMmdData.X := Some Xd, ISSMmdData.sol := Some sold\<rparr>"
    and ks: "fst ` set Xd \<subseteq> fst ` set (data_dict self) \<inter> fst ` set dsize"
      "fst ` set sold \<subseteq> fst ` set (data_dict self) \<inter> fst ` set dsize"
    by auto
  from ks assms have n: "k \<notin> fst ` set Xd" "k \<notin> fst ` set sold" by auto
  from ks have e: "Xd = [] \<and> sold = []" if "fst ` set (data_dict self) \<inter> fst ` set dsize = {}"
    using that by simp
  have "ISSMmdData.X (fst (outcome_state (prepare_training_data choice g self (Some dsize)))) = Some Xd \<and>
       ISSMmdData.sol (fst (outcome_state (prepare_training_data choice g self (Some dsize)))) = Some sold \<and>
       k \<notin> fst ` set Xd \<and> k \<notin> fst ` set sold \<and>
       (fst ` set (data_dict self) \<inter> fst ` set dsize = {} \<longrightarrow> Xd = [] \<and> sold = [])"
    using n e unfolding st by simp
  then have "\<exists>Xd sold.
       ISSMmdData.X (fst (outcome_state (prepare_training_data choice g self (Some dsize)))) = Some Xd \<and>
       ISSMmdData.sol (fst (outcome_state (prepare_training_data choice g self (Some dsize)))) = Some sold \<and>
       k \<notin> fst ` set Xd \<and> k \<notin> fst ` set sold \<and>
       (fst ` set (data_dict self) \<inter> fst ` set dsize = {} \<longrightarrow> Xd = [] \<and> sold = [])"
    by (intro exI)
  with prepare_training_data_delete[OF assms, of choice g dsize, symmetric]
  show ?thesis by (rule conjI)
qed

lemma ex_prepare_unknown:
  "prepare_training_data ex_choice () ex_loaded (Some [(''temperature'', Some 5)])
     = Done (ex_loaded\<lparr>ISSMmdData.X := Some [], ISSMmdData.sol := Some []\<rparr>, ())"
  by (simp add: prepare_training_data_def Let_def ex_loaded_def ex_param_def
      get_ice_indices_def getitem_def nonzero_def coordinates_at_def take_idx_def sample_field_def
      ex_choice_def upt_4)

theorem prepare_training_data_unknown_key_witness:
  "''temperature'' \<notin> fst ` set (data_dict ex_loaded) \<and>
   prepare_training_data ex_choice () ex_loaded (Some [(''temperature'', Some 5)])
     = prepare_training_data ex_choice () ex_loaded (Some []) \<and>
   prepare_training_data ex_choice () ex_loaded (Some [(''temperature'', Some 5)])
     = Done (ex_loaded\<lparr>ISSMmdData.X := Some [], ISSMmdData.sol := Some []\<rparr>, ())"
proof -
  have k: "''temperature'' \<notin> fst ` set (data_dict ex_loaded)"
    by (simp add: ex_loaded_def)
  have d: "AList.delete ''temperature'' [(''temperature'', Some (5::int))] = []"
    by (simp add: AList.delete_eq)
  from prepare_training_data_unknown_key[OF k, of ex_choice "()" "[(''temperature'', Some 5)]"]
  have "prepare_training_data ex_choice () ex_loaded (Some [(''temperature'', Some 5)])
     = prepare_training_data ex_choice () ex_loaded (Some [])"
    unfolding d by (rule conjunct1)
  with k ex_prepare_unknown show ?thesis by (intro conjI)
qed

subsection \<open>Loading all sources\<close>

lemma load_data_world:
  "snd (outcome_state (ISSMmdData_load_data w ld))
     = w\<lparr>reads := reads w @ [data_path (ISSMmdData.parameters ld)]\<rparr>"
  by (simp add: ISSMmdData_load_data_def Let_def outcome_state_map_outcome split: sum.splits)

lemma load_all_append:
  "load_all w (pre @ rest) =
     (case load_all w pre of
        Done (pre', w1) \<Rightarrow> map_outcome (\<lambda>(lds, w2). (pre' @ lds, w2)) (load_all w1 rest)
      | Raised e (pre', w1) \<Rightarrow> Raised e (pre' @ rest, w1))"
proof (induction pre arbitrary: w)
  case Nil
  show ?case by (cases "load_all w rest") auto
next
  case (Cons p pre)
  obtain k ld where p: "p = (k, ld)" by (cases p)
  show ?case
  proof (cases "ISSMmdData_load_data w ld")
    case (Raised e s)
    then show ?thesis by (cases s) (simp add: p)
  next
    case (Done s)
    obtain ld' w' where s: "s = (ld', w')" by (cases s)
    show ?thesis
    proof (cases "load_all w' pre")
      case (Raised e t)
      with Done s show ?thesis by (cases t) (simp add: p Cons.IH)
    next
      case d: (Done t)
      obtain pre' w1 where t: "t = (pre', w1)" by (cases t)
      show ?thesis
        using Done s d t
        by (cases "load_all w1 rest") (auto simp: p Cons.IH)
    qed
  qed
qed

lemma load_all_Done_world:
  assumes "load_all w lds = Done (lds', w')"
  shows "w' = w\<lparr>reads := reads w @ map (\<lambda>(k, l). data_path (ISSMmdData.parameters l)) lds\<rparr>"
  using assms
proof (induction lds arbitrary: w lds')
  case Nil
  then show ?case by simp
next
  case (Cons p lds)
  obtain k ld where p: "p = (k, ld)" by (cases p)
  from Cons.prems obtain ld1 w1 where 1: "ISSMmdData_load_data w ld = Done (ld1, w1)"
    by (cases "ISSMmdData_load_data w ld") (auto simp: p)
  with Cons.prems obtain lds1 where 2: "load_all w1 lds = Done (lds1, w')"
    by (cases "load_all w1 lds") (auto simp: p)
  from load_data_world[of w ld] 1
  have "w1 = w\<lparr>reads := reads w @ [data_path (ISSMmdData.parameters ld)]\<rparr>" by simp
  with Cons.IH[OF 2] show ?case by (simp add: p)
qed

lemma ex_manager_init: "Data_init subclasses ex_manager_param = Inr ex_manager"
  by (simp add: Data_init_def ex_manager_param_def ex_manager_def create_def subclasses_def
      init_subclass_def ex_param_def ex_param_missing_def ex_param_u_def)

lemma world_after_Nil: "world_after w [] = w"
  by (simp add: world_after_def)

lemma world_after_append: "world_after (world_after w a) b = world_after w (a @ b)"
  by (simp add: world_after_def)

lemma load_data_Done_world:
  "ISSMmdData_load_data w ld = Done (ld', w') \<Longrightarrow> w' = world_after w [(k, ld)]"
  using load_data_world[of w ld] by (simp add: world_after_def)

lemma load_data_Raised_world:
  "ISSMmdData_load_data w ld = Raised e (ld', w') \<Longrightarrow> w' = world_after w [(k, ld)]"
  using load_data_world[of w ld] by (simp add: world_after_def)

text \<open>Loaders that load one after the other, each in the world its predecessors leave.\<close>

lemma load_all_each:
  assumes "length pre' = length pre"
    and "\<forall>i<length pre. fst (pre' ! i) = fst (pre ! i) \<and>
           (\<exists>w'. ISSMmdData_load_data (world_after w (take i pre)) (snd (pre ! i))
                   = Done (snd (pre' ! i), w'))"
  shows "load_all w pre = Done (pre', world_after w pre)"
  using assms
proof (induction pre arbitrary: w pre')
  case Nil
  then show ?case by (simp add: world_after_Nil)
next
  case (Cons p pre)
  obtain k ld where p: "p = (k, ld)" by (cases p)
  from Cons.prems(1) obtain p' ps' where pre': "pre' = p' # ps'" and len: "length ps' = length pre"
    by (cases pre') auto
  obtain k' ld' where p': "p' = (k', ld')" by (cases p')
  from Cons.prems(2)[rule_format, of 0] obtain w1 where
    k: "k' = k" and l: "ISSMmdData_load_data w ld = Done (ld', w1)"
    by (auto simp: pre' p p' world_after_Nil)
  from load_data_Done_world[OF l] have w1: "w1 = world_after w [(k, ld)]" .
  have "\<forall>i<length pre. fst (ps' ! i) = fst (pre ! i) \<and>
           (\<exists>w'. ISSMmdData_load_data (world_after w1 (take i pre)) (snd (pre ! i))
                   = Done (snd (ps' ! i), w'))"
  proof (intro allI impI)
    fix i assume "i < length pre"
    then have "Suc i < length (p # pre)" by simp
    from Cons.prems(2)[rule_format, OF this]
    show "fst (ps' ! i) = fst (pre ! i) \<and>
           (\<exists>w'. ISSMmdData_load_data (world_after w1 (take i pre)) (snd (pre ! i))
                   = Done (snd (ps' ! i), w'))"
      by (simp add: pre' p w1 world_after_append)
  qed
  from Cons.IH[OF len this] have "load_all w1 pre = Done (ps', world_after w1 pre)" .
  with l show ?case
    by (simp add: p pre' p' k w1 world_after_append)
qed

text \<open>
  C8. Split the loaders of the manager into \<open>pre\<close> and \<open>rest\<close>, and let each loader of
  \<open>pre\<close> load, in the world in which the files of all loaders before it have been opened,
  into the loader at its place in \<open>pre'\<close>. If \<open>rest\<close> is empty, \<^verbatim>\<open>Data.load_data\<close> returns:
  every loader is loaded, and the files opened are those of all loaders, in the order of
  the dictionary. If the first loader of \<open>rest\<close> raises \<open>e\<close> in the world that \<open>pre\<close> leave,
  \<^verbatim>\<open>Data.load_data\<close> raises this same \<open>e\<close>: the manager holds the earlier loaders as loaded
  (\<open>pre'\<close>), the failing loader as its own \<^verbatim>\<open>load_data\<close> left it and the later loaders
  untouched, and the files opened are those of \<open>pre\<close> and of the failing loader, in order,
  and no other.
\<close>

theorem Data_load_data_in_order:
  assumes "Data.data self = pre @ rest"
    and "length pre' = length pre"
    and "\<forall>i<length pre. fst (pre' ! i) = fst (pre ! i) \<and>
           (\<exists>w'. ISSMmdData_load_data (world_after w (take i pre)) (snd (pre ! i))
                   = Done (snd (pre' ! i), w'))"
  shows "(rest = [] \<longrightarrow>
            Data_load_data w self = Done (self\<lparr>Data.data := pre'\<rparr>, world_after w pre)) \<and>
         (\<forall>k ld post e ld' w2.
            rest = (k, ld) # post \<and>
            ISSMmdData_load_data (world_after w pre) ld = Raised e (ld', w2) \<longrightarrow>
            Data_load_data w self = Raised e (self\<lparr>Data.data := pre' @ (k, ld') # post\<rparr>, w2) \<and>
            w2 = world_after w (pre @ [(k, ld)]))"
proof -
  note p = load_all_each[OF assms(2,3)]
  have a: "Data_load_data w self = Done (self\<lparr>Data.data := pre'\<rparr>, world_after w pre)"
    if "rest = []"
    using assms(1) that p by (simp add: Data_load_data_def)
  have b: "Data_load_data w self = Raised e (self\<lparr>Data.data := pre' @ (k, ld') # post\<rparr>, w2) \<and>
            w2 = world_after w (pre @ [(k, ld)])"
    if r: "rest = (k, ld) # post"
      and f: "ISSMmdData_load_data (world_after w pre) ld = Raised e (ld', w2)"
    for k ld post e ld' w2
  proof -
    have "load_all (world_after w pre) ((k, ld) # post) = Raised e ((k, ld') # post, w2)"
      using f by simp
    with p have "load_all w (pre @ (k, ld) # post) = Raised e (pre' @ (k, ld') # post, w2)"
      by (simp add: load_all_append)
    with assms(1) r have 1: "Data_load_data w self
        = Raised e (self\<lparr>Data.data := pre' @ (k, ld') # post\<rparr>, w2)"
      by (simp add: Data_load_data_def)
    from load_data_Raised_world[OF f, of k]
    have 2: "w2 = world_after w (pre @ [(k, ld)])"
      by (simp add: world_after_append)
    from 1 2 show ?thesis by (rule conjI)
  qed
  from a b show ?thesis by blast
qed

lemma ex_load_u:
  "ISSMmdData_load_data (ex_world\<lparr>reads := [''a.mat'']\<rparr>) (ISSMmdData_init ex_param_u)
     = Done (ex_loaded\<lparr>ISSMmdData.parameters := ex_param_u\<rparr>,
             ex_world\<lparr>reads := [''a.mat'', ''a.mat'']\<rparr>)"
  by (simp add: ISSMmdData_load_data_def ISSMmdData_init_def ex_param_u_def ex_world_def loadmat_def
      getitem_def Let_def load_md_def set_X_dict_def set_data_dict_def set_mask_dict_def getitem2_def
      per_second_def vel_of_def np_add_def ex_md_def ex_loaded_def Constants_yts_def)

lemma ex_load_missing:
  "ISSMmdData_load_data (ex_world\<lparr>reads := [''a.mat'']\<rparr>) (ISSMmdData_init ex_param_missing)
      = Raised OSError (ISSMmdData_init ex_param_missing, ex_world\<lparr>reads := [''a.mat'', ''b.mat'']\<rparr>)"
  by (simp add: ISSMmdData_load_data_def Let_def loadmat_def ex_world_def ISSMmdData_init_def
      ex_param_missing_def)

theorem Data_load_data_in_order_witness:
  "Data_load_data ex_world ex_pair_new
      = Done (ex_pair, ex_world\<lparr>reads := [''a.mat'', ''a.mat'']\<rparr>) \<and>
   Data_load_data ex_world ex_manager
      = Raised OSError
          (ex_manager\<lparr>Data.data := [(''first'', ex_loaded),
                                     (''second'', ISSMmdData_init ex_param_missing),
                                     (''third'', ISSMmdData_init ex_param_u)]\<rparr>,
           ex_world\<lparr>reads := [''a.mat'', ''b.mat'']\<rparr>)"
proof -
  let ?one = "[(''first'', ISSMmdData_init ex_param)]"
  let ?two = "[(''first'', ISSMmdData_init ex_param), (''second'', ISSMmdData_init ex_param_u)]"
  let ?two' = "[(''first'', ex_loaded), (''second'', ex_loaded\<lparr>ISSMmdData.parameters := ex_param_u\<rparr>)]"
  have w0: "world_after ex_world [] = ex_world"
    by (simp add: world_after_def ex_world_def)
  have w1: "world_after ex_world ?one = ex_world\<lparr>reads := [''a.mat'']\<rparr>"
    by (simp add: world_after_def ex_world_def ISSMmdData_init_def ex_param_def)
  have w2: "world_after ex_world ?two = ex_world\<lparr>reads := [''a.mat'', ''a.mat'']\<rparr>"
    by (simp add: world_after_def ex_world_def ISSMmdData_init_def ex_param_def ex_param_u_def)
  \<comment> \<open>the run in which every loader loads\<close>
  have d2: "Data.data ex_pair_new = ?two @ []" by (simp add: ex_pair_new_def)
  have l2: "length ?two' = length ?two" by simp
  have h2: "\<forall>i<length ?two. fst (?two' ! i) = fst (?two ! i) \<and>
           (\<exists>w'. ISSMmdData_load_data (world_after ex_world (take i ?two)) (snd (?two ! i))
                   = Done (snd (?two' ! i), w'))"
  proof (intro allI impI)
    fix i assume "i < length ?two"
    then consider "i = 0" | "i = 1" by fastforce
    then show "fst (?two' ! i) = fst (?two ! i) \<and>
           (\<exists>w'. ISSMmdData_load_data (world_after ex_world (take i ?two)) (snd (?two ! i))
                   = Done (snd (?two' ! i), w'))"
    proof cases
      case 1
      then show ?thesis by (simp add: w0 ex_load)
    next
      case 2
      then show ?thesis by (simp add: w1 ex_load_u)
    qed
  qed
  from Data_load_data_in_order[OF d2 l2 h2]
  have "Data_load_data ex_world ex_pair_new
      = Done (ex_pair_new\<lparr>Data.data := ?two'\<rparr>, world_after ex_world ?two)" by simp
  moreover have "ex_pair_new\<lparr>Data.data := ?two'\<rparr> = ex_pair"
    by (simp add: ex_pair_new_def ex_pair_def ex_pair_param_def)
  ultimately have s: "Data_load_data ex_world ex_pair_new
      = Done (ex_pair, ex_world\<lparr>reads := [''a.mat'', ''a.mat'']\<rparr>)"
    by (simp add: w2)
  \<comment> \<open>the run in which the second loader raises\<close>
  let ?rest = "[(''second'', ISSMmdData_init ex_param_missing), (''third'', ISSMmdData_init ex_param_u)]"
  have d1: "Data.data ex_manager = ?one @ ?rest" by (simp add: ex_manager_def)
  have l1: "length [(''first'', ex_loaded)] = length ?one" by simp
  have h1: "\<forall>i<length ?one. fst ([(''first'', ex_loaded)] ! i) = fst (?one ! i) \<and>
           (\<exists>w'. ISSMmdData_load_data (world_after ex_world (take i ?one)) (snd (?one ! i))
                   = Done (snd ([(''first'', ex_loaded)] ! i), w'))"
    by (simp add: w0 ex_load)
  have f: "ISSMmdData_load_data (world_after ex_world ?one) (ISSMmdData_init ex_param_missing)
      = Raised OSError (ISSMmdData_init ex_param_missing, ex_world\<lparr>reads := [''a.mat'', ''b.mat'']\<rparr>)"
    by (simp add: w1 ex_load_missing)
  from Data_load_data_in_order[OF d1 l1 h1] f
  have r: "Data_load_data ex_world ex_manager
      = Raised OSError
          (ex_manager\<lparr>Data.data := [(''first'', ex_loaded),
                                     (''second'', ISSMmdData_init ex_param_missing),
                                     (''third'', ISSMmdData_init ex_param_u)]\<rparr>,
           ex_world\<lparr>reads := [''a.mat'', ''b.mat'']\<rparr>)"
    by simp
  from s r show ?thesis by (rule conjI)
qed

subsection \<open>Merging the samples of all sources\<close>

lemma sample_field_distinct:
  assumes "sample_field choice dsize dd iice idbc X_temp X_bc k (Xd, sold, g) = Done (Xd', sold', g')"
    and "distinct (map fst Xd)" and "distinct (map fst sold)"
  shows "distinct (map fst Xd') \<and> distinct (map fst sold')"
proof (cases "map_of dsize k")
  case None
  with assms show ?thesis by (simp add: sample_field_skip)
next
  case (Some v)
  show ?thesis
  proof (cases v)
    case None
    with Some have "map_of dsize k = Some None" by simp
    from sample_field_bc_Done[OF this, THEN iffD1, OF assms(1)] obtain a
      where "Xd' = AList.update k X_bc Xd" "sold' = AList.update k (map (\<lambda>i. a ! i) idbc) sold"
      by auto
    with assms(2,3) show ?thesis
      by (simp add: distinct_update)
  next
    case (Some n)
    with \<open>map_of dsize k = Some v\<close> have m: "map_of dsize k = Some (Some n)" by simp
    from sample_field_count_Done[OF m assms(1)] obtain a idx
      where "Xd' = AList.update k (map (\<lambda>i. X_temp ! i) idx) Xd"
        "sold' = AList.update k (map (\<lambda>i. a ! (iice ! i)) idx) sold"
      by auto
    with assms(2,3) show ?thesis
      by (simp add: distinct_update)
  qed
qed

lemma prepare_training_data_distinct:
  assumes "prepare_training_data choice g self arg = Done (self', g')"
  shows "\<exists>Xd sold. ISSMmdData.X self' = Some Xd \<and> ISSMmdData.sol self' = Some sold \<and>
           distinct (map fst Xd) \<and> distinct (map fst sold)"
proof -
  from prepare_training_data_Done[OF assms] obtain iice X_temp DBC X_bc Xd sold where
    "map_of (mask_dict self) ''DBC_mask'' = Some DBC" and
    r: "run (map (sample_field choice
                 (case arg of None \<Rightarrow> data_size (ISSMmdData.parameters self) | Some d \<Rightarrow> d)
                 (data_dict self) iice (nonzero (map (\<lambda>v. 0 < v) DBC)) X_temp X_bc)
              (map fst (data_dict self))) ([], [], g) = Done (Xd, sold, g')"
    and s: "self' = self\<lparr>ISSMmdData.X := Some Xd, ISSMmdData.sol := Some sold\<rparr>"
    by blast
  let ?Q = "\<lambda>st. distinct (map fst (fst st)) \<and> distinct (map fst (fst (snd st)))"
  have pres: "?Q s'"
    if d: "sample_field choice
                 (case arg of None \<Rightarrow> data_size (ISSMmdData.parameters self) | Some d \<Rightarrow> d)
                 (data_dict self) iice (nonzero (map (\<lambda>v. 0 < v) DBC)) X_temp X_bc j s = Done s'"
      and q: "?Q s" for j s s'
  proof -
    obtain Xd0 sold0 g0 where s: "s = (Xd0, sold0, g0)" by (cases s)
    obtain Xd1 sold1 g1 where s': "s' = (Xd1, sold1, g1)" by (cases s')
    from sample_field_distinct[OF d[unfolded s s']] q s s' show ?thesis by simp
  qed
  have "?Q ([], [], g)" by simp
  from run_map_preserve[where Q = ?Q, OF r this pres] s
  have "ISSMmdData.X self' = Some Xd \<and> ISSMmdData.sol self' = Some sold \<and>
           distinct (map fst Xd) \<and> distinct (map fst sold)" by simp
  then show ?thesis by (intro exI)
qed

lemma merge_rows_map_of:
  assumes "distinct (map fst lx)"
  shows "map_of (merge_rows agg lx) k =
     (case map_of lx k of
        None \<Rightarrow> map_of agg k
      | Some rows \<Rightarrow> Some ((case map_of agg k of None \<Rightarrow> [] | Some old \<Rightarrow> old) @ rows))"
  using assms
proof (induction lx arbitrary: agg)
  case Nil
  then show ?case by simp
next
  case (Cons p lx)
  obtain xkey rows where p: "p = (xkey, rows)" by (cases p)
  from Cons.prems p have d: "distinct (map fst lx)" and n: "xkey \<notin> fst ` set lx" by simp_all
  from n have m: "map_of lx xkey = None" by (simp add: map_of_eq_None_iff)
  show ?case
  proof (cases "k = xkey")
    case True
    have ih: "map_of (merge_rows A lx) xkey = map_of A xkey" for A
      using Cons.IH[OF d, of A] m True by simp
    from True show ?thesis
      by (simp add: p ih update_conv split: option.splits)
  next
    case False
    then show ?thesis
      by (simp add: p Cons.IH[OF d] update_conv split: option.splits)
  qed
qed

lemma prepare_all_Done:
  assumes "prepare_all choice g lds aX asol = Done ((lds', x, s), g')"
  shows "map fst lds' = map fst lds \<and>
     map_of x k = (if produced_X k lds' = [] then map_of aX k
                   else Some ((case map_of aX k of None \<Rightarrow> [] | Some old \<Rightarrow> old)
                                @ concat (produced_X k lds'))) \<and>
     map_of s k = (if produced_sol k lds' = [] then map_of asol k
                   else Some ((case map_of asol k of None \<Rightarrow> [] | Some old \<Rightarrow> old)
                                @ concat (produced_sol k lds')))"
  using assms
proof (induction lds arbitrary: g aX asol lds')
  case Nil
  then show ?case by (simp add: produced_X_def produced_sol_def)
next
  case (Cons p lds)
  obtain key ld where p: "p = (key, ld)" by (cases p)
  from Cons.prems obtain ld1 g1 where 1: "prepare_training_data choice g ld None = Done (ld1, g1)"
    by (cases "prepare_training_data choice g ld None") (auto simp: p)
  from prepare_training_data_distinct[OF 1] obtain lX lsol where
    lx: "ISSMmdData.X ld1 = Some lX" "ISSMmdData.sol ld1 = Some lsol"
    and dx: "distinct (map fst lX)" and ds: "distinct (map fst lsol)" by blast
  from Cons.prems 1 lx obtain rest' where
    2: "prepare_all choice g1 lds (merge_rows aX lX) (merge_rows asol lsol) = Done ((rest', x, s), g')"
    and l: "lds' = (key, ld1) # rest'"
    by (cases "prepare_all choice g1 lds (merge_rows aX lX) (merge_rows asol lsol)")
       (auto simp: p)
  note ih = Cons.IH[OF 2]
  have px: "produced_X k lds' = (case map_of lX k of None \<Rightarrow> [] | Some rows \<Rightarrow> [rows]) @ produced_X k rest'"
    by (simp add: l produced_X_def map_filter_simps lx split: option.splits)
  have ps: "produced_sol k lds' = (case map_of lsol k of None \<Rightarrow> [] | Some rows \<Rightarrow> [rows]) @ produced_sol k rest'"
    by (simp add: l produced_sol_def map_filter_simps lx split: option.splits)
  have a: "map fst lds' = map fst (p # lds)" using ih l p by simp
  have b: "map_of x k = (if produced_X k lds' = [] then map_of aX k
                   else Some ((case map_of aX k of None \<Rightarrow> [] | Some old \<Rightarrow> old)
                                @ concat (produced_X k lds')))"
    using ih by (simp add: px merge_rows_map_of[OF dx] split: option.splits)
  have c: "map_of s k = (if produced_sol k lds' = [] then map_of asol k
                   else Some ((case map_of asol k of None \<Rightarrow> [] | Some old \<Rightarrow> old)
                                @ concat (produced_sol k lds')))"
    using ih by (simp add: ps merge_rows_map_of[OF ds] split: option.splits)
  from a b c show ?case by (intro conjI)
qed

text \<open>
  \<^verbatim>\<open>Data.__init__\<close> leaves \<^verbatim>\<open>X\<close> and \<^verbatim>\<open>sol\<close> of the manager empty, and
  \<^verbatim>\<open>Data.load_data\<close> does not touch them.
\<close>

lemma Data_init_fresh:
  "Data_init reg p = Inr d \<Longrightarrow> Data.X d = [] \<and> Data.sol d = []"
  by (auto simp: Data_init_def split: sum.splits)

lemma Data_load_data_keeps_samples:
  "Data.X (fst (outcome_state (Data_load_data w d))) = Data.X d \<and>
   Data.sol (fst (outcome_state (Data_load_data w d))) = Data.sol d"
  by (cases "load_all w (Data.data d)")
    (auto simp: Data_load_data_def outcome_state_map_outcome)

text \<open>
  The first call. Take a manager whose \<^verbatim>\<open>X\<close> and \<^verbatim>\<open>sol\<close> are empty, as \<^verbatim>\<open>Data.__init__\<close>
  leaves them, and let \<^verbatim>\<open>Data.prepare_training_data\<close> return. For every field name \<open>k\<close>: if no
  loader holds rows for \<open>k\<close>, the manager has no key \<open>k\<close>; otherwise its \<^verbatim>\<open>X[k]\<close> is the
  rows of the loaders that hold \<open>k\<close>, one block after the other in the order of the
  loaders, so its number of rows is the sum of theirs (\<open>p + q\<close> for two loaders with \<open>p\<close>
  and \<open>q\<close> rows); and so for \<^verbatim>\<open>sol\<close>.
\<close>

lemma Data_prepare_training_data_merges:
  assumes "Data.X self = []" and "Data.sol self = []"
    and "Data_prepare_training_data choice g self = Done (self', g')"
  shows "map fst (Data.data self') = map fst (Data.data self) \<and>
     map_of (Data.X self') k =
       (if produced_X k (Data.data self') = [] then None
        else Some (concat (produced_X k (Data.data self')))) \<and>
     map_of (Data.sol self') k =
       (if produced_sol k (Data.data self') = [] then None
        else Some (concat (produced_sol k (Data.data self')))) \<and>
     (\<forall>rows. map_of (Data.X self') k = Some rows \<longrightarrow>
        length rows = sum_list (map length (produced_X k (Data.data self')))) \<and>
     (\<forall>rows. map_of (Data.sol self') k = Some rows \<longrightarrow>
        length rows = sum_list (map length (produced_sol k (Data.data self'))))"
proof -
  from assms(3) obtain lds' x s where
    1: "prepare_all choice g (Data.data self) (Data.X self) (Data.sol self) = Done ((lds', x, s), g')"
    and 2: "self' = self\<lparr>Data.data := lds', Data.X := x, Data.sol := s\<rparr>"
    by (cases "prepare_all choice g (Data.data self) (Data.X self) (Data.sol self)")
       (auto simp: Data_prepare_training_data_def)
  from prepare_all_Done[OF 1, of k] assms(1,2) 2
  have a: "map fst (Data.data self') = map fst (Data.data self)"
    and b: "map_of (Data.X self') k =
       (if produced_X k (Data.data self') = [] then None
        else Some (concat (produced_X k (Data.data self'))))"
    and c: "map_of (Data.sol self') k =
       (if produced_sol k (Data.data self') = [] then None
        else Some (concat (produced_sol k (Data.data self'))))"
    by simp_all
  from b have d: "\<forall>rows. map_of (Data.X self') k = Some rows \<longrightarrow>
        length rows = sum_list (map length (produced_X k (Data.data self')))"
    by (auto simp: length_concat split: if_splits)
  from c have e: "\<forall>rows. map_of (Data.sol self') k = Some rows \<longrightarrow>
        length rows = sum_list (map length (produced_sol k (Data.data self')))"
    by (auto simp: length_concat split: if_splits)
  from a b c d e show ?thesis by (intro conjI)
qed

lemma ex_prepare_u:
  "prepare_training_data ex_choice () (ex_loaded\<lparr>ISSMmdData.parameters := ex_param_u\<rparr>) None
     = Done (ex_prepared_u, ())"
  by (simp add: prepare_training_data_def Let_def ex_loaded_def ex_prepared_u_def ex_param_u_def
      get_ice_indices_def getitem_def nonzero_def coordinates_at_def take_idx_def sample_field_def
      ex_choice_def upt_4)

lemma ex_prepare_u_again:
  "prepare_training_data ex_choice () ex_prepared_u None = Done (ex_prepared_u, ())"
  by (simp add: prepare_training_data_def Let_def ex_loaded_def ex_prepared_u_def ex_param_u_def
      get_ice_indices_def getitem_def nonzero_def coordinates_at_def take_idx_def sample_field_def
      ex_choice_def upt_4)

lemma ex_prepared_samples:
  "ISSMmdData.X ex_prepared = Some [(''u'', [(3, 1), (1, 0), (0, 0)]), (''C'', [(0, 0), (3, 1)])]"
  "ISSMmdData.sol ex_prepared = Some [(''u'', [0, 0, 3]), (''C'', [30, 33])]"
  "ISSMmdData.X ex_prepared_u = Some [(''u'', [(3, 1), (1, 0)])]"
  "ISSMmdData.sol ex_prepared_u = Some [(''u'', [0, 0])]"
  by (simp_all add: ex_prepared_def ex_prepared_u_def)

lemma ex_pair_prepare:
  "Data_prepare_training_data ex_choice () ex_pair = Done (ex_pair_once, ())"
  by (simp add: Data_prepare_training_data_def ex_pair_def ex_pair_once_def ex_prepare ex_prepare_u
      ex_prepared_samples)

lemma ex_pair_prepare_again:
  "Data_prepare_training_data ex_choice () ex_pair_once = Done (ex_pair_twice, ())"
  by (simp add: Data_prepare_training_data_def ex_pair_def ex_pair_once_def ex_pair_twice_def
      ex_prepare_again ex_prepare_u_again ex_prepared_samples)

lemma ex_pair_merges:
  "Data.X ex_pair = [] \<and> Data.sol ex_pair = [] \<and>
   Data_prepare_training_data ex_choice () ex_pair = Done (ex_pair_once, ()) \<and>
   produced_X ''u'' (Data.data ex_pair_once) = [[(3, 1), (1, 0), (0, 0)], [(3, 1), (1, 0)]] \<and>
   map_of (Data.X ex_pair_once) ''u'' = Some [(3, 1), (1, 0), (0, 0), (3, 1), (1, 0)] \<and>
   produced_X ''C'' (Data.data ex_pair_once) = [[(0, 0), (3, 1)]] \<and>
   map_of (Data.X ex_pair_once) ''C'' = Some [(0, 0), (3, 1)] \<and>
   produced_X ''H'' (Data.data ex_pair_once) = [] \<and>
   map_of (Data.X ex_pair_once) ''H'' = None"
proof -
  have a: "Data.X ex_pair = []" and b: "Data.sol ex_pair = []"
    by (simp_all add: ex_pair_def)
  have d: "Data.data ex_pair_once = [(''first'', ex_prepared), (''second'', ex_prepared_u)]"
    by (simp add: ex_pair_once_def)
  have pu: "produced_X ''u'' (Data.data ex_pair_once) = [[(3, 1), (1, 0), (0, 0)], [(3, 1), (1, 0)]]"
    by (simp add: d produced_X_def map_filter_simps ex_prepared_samples)
  have pc: "produced_X ''C'' (Data.data ex_pair_once) = [[(0, 0), (3, 1)]]"
    by (simp add: d produced_X_def map_filter_simps ex_prepared_samples)
  have ph: "produced_X ''H'' (Data.data ex_pair_once) = []"
    by (simp add: d produced_X_def map_filter_simps ex_prepared_samples)
  from Data_prepare_training_data_merges[OF a b ex_pair_prepare, of "''u''"]
  have u: "map_of (Data.X ex_pair_once) ''u'' = Some [(3, 1), (1, 0), (0, 0), (3, 1), (1, 0)]"
    unfolding pu by simp
  from Data_prepare_training_data_merges[OF a b ex_pair_prepare, of "''C''"]
  have c: "map_of (Data.X ex_pair_once) ''C'' = Some [(0, 0), (3, 1)]"
    unfolding pc by simp
  from Data_prepare_training_data_merges[OF a b ex_pair_prepare, of "''H''"]
  have h: "map_of (Data.X ex_pair_once) ''H'' = None"
    unfolding ph by simp
  from a b ex_pair_prepare pu u pc c ph h show ?thesis by (intro conjI)
qed

subsection \<open>Calling \<^verbatim>\<open>prepare_training_data\<close> again\<close>

text \<open>
  The loader starts from fresh dictionaries: what \<^verbatim>\<open>X\<close> and \<^verbatim>\<open>sol\<close> held before the call
  has no influence on the outcome.
\<close>

lemma prepare_training_data_replaces:
  "prepare_training_data choice g (self\<lparr>ISSMmdData.X := x0, ISSMmdData.sol := s0\<rparr>) arg
     = prepare_training_data choice g self arg"
  by (cases arg)
    (simp_all add: prepare_training_data_def Let_def get_ice_indices_def coordinates_at_def
      split: sum.splits)

text \<open>
  The manager does not: the rows that its \<^verbatim>\<open>X\<close> and \<^verbatim>\<open>sol\<close> held before the call stay on
  top of the rows of the call.
\<close>

lemma Data_prepare_training_data_keeps_rows:
  assumes "Data_prepare_training_data choice g self = Done (self', g')"
  shows "(\<forall>old. map_of (Data.X self) k = Some old \<longrightarrow>
            map_of (Data.X self') k = Some (old @ concat (produced_X k (Data.data self')))) \<and>
         (\<forall>old. map_of (Data.sol self) k = Some old \<longrightarrow>
            map_of (Data.sol self') k = Some (old @ concat (produced_sol k (Data.data self'))))"
proof -
  from assms obtain lds' x s where
    1: "prepare_all choice g (Data.data self) (Data.X self) (Data.sol self) = Done ((lds', x, s), g')"
    and 2: "self' = self\<lparr>Data.data := lds', Data.X := x, Data.sol := s\<rparr>"
    by (cases "prepare_all choice g (Data.data self) (Data.X self) (Data.sol self)")
       (auto simp: Data_prepare_training_data_def)
  from prepare_all_Done[OF 1, of k] 2 show ?thesis by auto
qed

text \<open>
  C3. For a single loader the claim holds (\<open>prepare_training_data_replaces\<close>). For the
  manager it fails: \<^verbatim>\<open>Data.prepare_training_data\<close> never empties \<^verbatim>\<open>self.X\<close> and
  \<^verbatim>\<open>self.sol\<close>, so a second call stacks its rows below those of the first. On \<open>ex_pair\<close>
  the first call leaves 5 rows for \<^verbatim>\<open>'u'\<close> and 2 for \<^verbatim>\<open>'C'\<close>, the second call 10 and 4,
  with the same loaders and the same \<^verbatim>\<open>data_size\<close>.
\<close>

theorem Data_prepare_training_data_accumulates:
  "Data_prepare_training_data ex_choice () ex_pair = Done (ex_pair_once, ()) \<and>
   Data_prepare_training_data ex_choice () ex_pair_once = Done (ex_pair_twice, ()) \<and>
   Data.data ex_pair_twice = Data.data ex_pair_once \<and>
   row_counts (Data.X ex_pair_once) = [(''u'', 5), (''C'', 2)] \<and>
   row_counts (Data.X ex_pair_twice) = [(''u'', 10), (''C'', 4)] \<and>
   row_counts (Data.sol ex_pair_once) = [(''u'', 5), (''C'', 2)] \<and>
   row_counts (Data.sol ex_pair_twice) = [(''u'', 10), (''C'', 4)]"
  using ex_pair_prepare ex_pair_prepare_again
  by (simp add: row_counts_def ex_pair_once_def ex_pair_twice_def)

text \<open>
  \<open>ex_pair\<close> is the manager that \<^verbatim>\<open>Data.__init__\<close> and \<^verbatim>\<open>Data.load_data\<close> build from the
  two sources, so \<open>ex_pair_once\<close> is what one call of \<^verbatim>\<open>Data.prepare_training_data\<close> then
  leaves.
\<close>

lemma ex_pair_reachable:
  "Data_init subclasses ex_pair_param = Inr ex_pair_new \<and>
   Data_load_data ex_world ex_pair_new = Done (ex_pair, ex_world\<lparr>reads := [''a.mat'', ''a.mat'']\<rparr>)"
proof -
  have 1: "Data_init subclasses ex_pair_param = Inr ex_pair_new"
    by (simp add: Data_init_def ex_pair_param_def ex_pair_new_def create_def subclasses_def
        init_subclass_def ex_param_def ex_param_u_def)
  have 2: "Data_load_data ex_world ex_pair_new
      = Done (ex_pair, ex_world\<lparr>reads := [''a.mat'', ''a.mat'']\<rparr>)"
    by (simp add: Data_load_data_def ex_pair_new_def ex_pair_def ex_pair_param_def ex_load ex_load_u)
  from 1 2 show ?thesis by (rule conjI)
qed

text \<open>
  C4. On a first call the rows of the manager are those of its loaders (lemma
  \<open>Data_prepare_training_data_merges\<close>). On a second call they are not:
  \<^verbatim>\<open>Data.prepare_training_data\<close> never empties \<^verbatim>\<open>self.X\<close> and \<^verbatim>\<open>self.sol\<close>, so the rows of
  the first call stay on top. On \<open>ex_pair_once\<close> the loaders hold 3 and 2 rows for \<^verbatim>\<open>'u'\<close>
  after the second call, 5 together, and 2 rows for \<^verbatim>\<open>'C'\<close>, while the manager holds 10
  rows for \<^verbatim>\<open>'u'\<close> and 4 for \<^verbatim>\<open>'C'\<close>.
\<close>

theorem Data_prepare_training_data_merges_again:
  "Data_prepare_training_data ex_choice () ex_pair_once = Done (ex_pair_twice, ()) \<and>
   produced_X ''u'' (Data.data ex_pair_twice) = [[(3, 1), (1, 0), (0, 0)], [(3, 1), (1, 0)]] \<and>
   sum_list (map length (produced_X ''u'' (Data.data ex_pair_twice))) = 5 \<and>
   map_of (Data.X ex_pair_twice) ''u''
     = Some [(3, 1), (1, 0), (0, 0), (3, 1), (1, 0), (3, 1), (1, 0), (0, 0), (3, 1), (1, 0)] \<and>
   produced_sol ''u'' (Data.data ex_pair_twice) = [[0, 0, 3], [0, 0]] \<and>
   map_of (Data.sol ex_pair_twice) ''u'' = Some [0, 0, 3, 0, 0, 0, 0, 3, 0, 0] \<and>
   sum_list (map length (produced_X ''C'' (Data.data ex_pair_twice))) = 2 \<and>
   row_counts (Data.X ex_pair_twice) = [(''u'', 10), (''C'', 4)] \<and>
   row_counts (Data.sol ex_pair_twice) = [(''u'', 10), (''C'', 4)]"
proof -
  have d: "Data.data ex_pair_twice = [(''first'', ex_prepared), (''second'', ex_prepared_u)]"
    by (simp add: ex_pair_twice_def ex_pair_once_def)
  have pu: "produced_X ''u'' (Data.data ex_pair_twice)
      = [[(3, 1), (1, 0), (0, 0)], [(3, 1), (1, 0)]]"
    by (simp add: d produced_X_def map_filter_simps ex_prepared_samples)
  have ps: "produced_sol ''u'' (Data.data ex_pair_twice) = [[0, 0, 3], [0, 0]]"
    by (simp add: d produced_sol_def map_filter_simps ex_prepared_samples)
  have pc: "produced_X ''C'' (Data.data ex_pair_twice) = [[(0, 0), (3, 1)]]"
    by (simp add: d produced_X_def map_filter_simps ex_prepared_samples)
  have su: "sum_list (map length (produced_X ''u'' (Data.data ex_pair_twice))) = 5"
    unfolding pu by simp
  have sc: "sum_list (map length (produced_X ''C'' (Data.data ex_pair_twice))) = 2"
    unfolding pc by simp
  have x: "map_of (Data.X ex_pair_twice) ''u''
     = Some [(3, 1), (1, 0), (0, 0), (3, 1), (1, 0), (3, 1), (1, 0), (0, 0), (3, 1), (1, 0)]"
    by (simp add: ex_pair_twice_def)
  have s: "map_of (Data.sol ex_pair_twice) ''u'' = Some [0, 0, 3, 0, 0, 0, 0, 3, 0, 0]"
    by (simp add: ex_pair_twice_def)
  have rx: "row_counts (Data.X ex_pair_twice) = [(''u'', 10), (''C'', 4)]"
    and rs: "row_counts (Data.sol ex_pair_twice) = [(''u'', 10), (''C'', 4)]"
    by (simp_all add: row_counts_def ex_pair_twice_def)
  from ex_pair_prepare_again pu su x ps s sc rx rs show ?thesis by (intro conjI)
qed

subsection \<open>When the methods return\<close>

lemma run_map_returns:
  assumes "\<And>j s. j \<in> set ks \<Longrightarrow> \<exists>s'. f j s = Done s'"
  shows "\<exists>st'. run (map f ks) st = Done st'"
  using assms
proof (induction ks arbitrary: st)
  case Nil
  then show ?case by simp
next
  case (Cons j ks)
  from Cons.prems[of j st] obtain s1 where 1: "f j st = Done s1" by auto
  from Cons.IH[of s1] Cons.prems obtain st' where "run (map f ks) s1 = Done st'" by auto
  with 1 show ?case by simp
qed

lemma sample_field_returns:
  assumes c: "choice_no_replace choice"
    and a: "map_of dd k = Some a"
    and i: "\<forall>i\<in>set iice. i < length a" and b: "\<forall>i\<in>set idbc. i < length a"
    and l: "length X_temp = length iice"
    and n: "\<forall>n. map_of dsize k = Some (Some n) \<longrightarrow> 0 \<le> n"
  shows "\<exists>s'. sample_field choice dsize dd iice idbc X_temp X_bc k s = Done s'"
proof -
  obtain Xd sold g where s: "s = (Xd, sold, g)" by (cases s)
  show ?thesis
  proof (cases "map_of dsize k")
    case None
    from sample_field_skip[OF this] show ?thesis by (intro exI)
  next
    case (Some v)
    show ?thesis
    proof (cases v)
      case None
      with Some have m: "map_of dsize k = Some None" by simp
      from a b show ?thesis
        unfolding s sample_field_bc_Done[OF m] by simp
    next
      case (Some m)
      with \<open>map_of dsize k = Some v\<close> have m: "map_of dsize k = Some (Some m)" by simp
      with n have "0 \<le> m" by simp
      then have "0 \<le> min m (int (length X_temp)) \<and> min m (int (length X_temp)) \<le> int (length X_temp)"
        by simp
      with c obtain idx where
        f: "fst (choice g (length X_temp) (min m (int (length X_temp)))) = Inr idx"
        and r: "list_all (\<lambda>i. i < length X_temp) idx"
        unfolding choice_no_replace_def by blast
      obtain g1 where ch: "choice g (length X_temp) (min m (int (length X_temp))) = (Inr idx, g1)"
        using f by (cases "choice g (length X_temp) (min m (int (length X_temp)))") simp
      from r l have r2: "\<forall>i\<in>set idx. i < length X_temp" "\<forall>i\<in>set idx. i < length iice"
        by (simp_all add: list_all_iff)
      show ?thesis
        unfolding s sample_field_count_raw[OF m]
        using a i ch r2 by simp
    qed
  qed
qed


text \<open>
  On a loader that holds both masks and both coordinate arrays, with every array at least
  as long as the masks (as in a loaded, index-aligned source), and with no negative
  count in \<^verbatim>\<open>data_size\<close>, \<^verbatim>\<open>prepare_training_data\<close> returns.
\<close>

lemma prepare_training_data_returns:
  assumes c: "choice_no_replace choice"
    and im: "map_of (mask_dict self) ''icemask'' = Some icemask"
    and dm: "map_of (mask_dict self) ''DBC_mask'' = Some DBC"
    and x: "map_of (X_dict self) ''x'' = Some x" and y: "map_of (X_dict self) ''y'' = Some y"
    and lx: "length icemask \<le> length x" "length DBC \<le> length x"
    and ly: "length icemask \<le> length y" "length DBC \<le> length y"
    and la: "\<forall>a\<in>snd ` set (data_dict self). length icemask \<le> length a \<and> length DBC \<le> length a"
    and n: "\<forall>k n. map_of (case arg of None \<Rightarrow> data_size (ISSMmdData.parameters self) | Some d \<Rightarrow> d) k
                 = Some (Some n) \<longrightarrow> 0 \<le> n"
  shows "\<exists>self' g'. prepare_training_data choice g self arg = Done (self', g')"
proof -
  let ?dsize = "case arg of None \<Rightarrow> data_size (ISSMmdData.parameters self) | Some d \<Rightarrow> d"
  let ?iice = "nonzero (map (\<lambda>v. v < 0) icemask)"
  let ?idbc = "nonzero (map (\<lambda>v. 0 < v) DBC)"
  let ?X_temp = "zip (map (\<lambda>i. x ! i) ?iice) (map (\<lambda>i. y ! i) ?iice)"
  let ?X_bc = "zip (map (\<lambda>i. x ! i) ?idbc) (map (\<lambda>i. y ! i) ?idbc)"
  have bi: "\<forall>i\<in>set ?iice. i < length icemask" and bd: "\<forall>i\<in>set ?idbc. i < length DBC"
    by (simp_all add: nonzero_def)
  have gi: "get_ice_indices self [] = Inr ?iice"
    by (simp add: get_ice_indices_def getitem_def im)
  have ci: "coordinates_at self ?iice = Inr ?X_temp"
    using bi lx(1) ly(1) by (auto simp: coordinates_at_def getitem_def x y take_idx_def list_all_iff)
  have cd: "coordinates_at self ?idbc = Inr ?X_bc"
    using bd lx(2) ly(2) by (auto simp: coordinates_at_def getitem_def x y take_idx_def list_all_iff)
  have "\<exists>s'. sample_field choice ?dsize (data_dict self) ?iice ?idbc ?X_temp ?X_bc j s = Done s'"
    if j: "j \<in> set (map fst (data_dict self))" for j s
  proof -
    from j obtain a where a: "map_of (data_dict self) j = Some a"
      by (cases "map_of (data_dict self) j") (auto simp: map_of_eq_None_iff)
    then have "a \<in> snd ` set (data_dict self)"
      by (auto dest: map_of_SomeD intro: rev_image_eqI)
    with la have "length icemask \<le> length a" "length DBC \<le> length a" by auto
    with bi bd have 1: "\<forall>i\<in>set ?iice. i < length a" and 2: "\<forall>i\<in>set ?idbc. i < length a"
      by auto
    have 3: "length ?X_temp = length ?iice" by simp
    from n have 4: "\<forall>n. map_of ?dsize j = Some (Some n) \<longrightarrow> 0 \<le> n" by blast
    from sample_field_returns[OF c a 1 2 3 4] show ?thesis .
  qed
  from run_map_returns[of "map fst (data_dict self)"
      "sample_field choice ?dsize (data_dict self) ?iice ?idbc ?X_temp ?X_bc" "([], [], g)", OF this]
  obtain st' where r: "run (map (sample_field choice ?dsize (data_dict self) ?iice ?idbc ?X_temp ?X_bc)
      (map fst (data_dict self))) ([], [], g) = Done st'" by blast
  obtain Xd sold g' where st': "st' = (Xd, sold, g')" by (cases st')
  let ?s = "self\<lparr>ISSMmdData.X := Some [], ISSMmdData.sol := Some []\<rparr>"
  have g2: "get_ice_indices ?s [] = Inr ?iice" using gi by (simp add: get_ice_indices_def Let_def)
  have c2: "coordinates_at ?s idx = coordinates_at self idx" for idx
    by (simp add: coordinates_at_def split: sum.splits)
  have "prepare_training_data choice g self arg
      = Done (self\<lparr>ISSMmdData.X := Some Xd, ISSMmdData.sol := Some sold\<rparr>, g')"
    using r st'
    by (simp add: prepare_training_data_def Let_def g2 c2 ci cd getitem_def dm)
  then show ?thesis by blast
qed


text \<open>
  On a readable file whose model holds the ten fields, with observed velocities of one
  length, \<^verbatim>\<open>load_data\<close> returns.
\<close>

lemma load_data_returns:
  assumes "map_of (files w) (data_path (ISSMmdData.parameters self)) = Some file"
    and "map_of file ''md'' = Some md"
    and "getitem2 md ''mesh'' ''x'' = Inr x" and "getitem2 md ''mesh'' ''y'' = Inr y"
    and "getitem2 md ''inversion'' ''vx_obs'' = Inr vx"
    and "getitem2 md ''inversion'' ''vy_obs'' = Inr vy"
    and "getitem2 md ''geometry'' ''surface'' = Inr s"
    and "getitem2 md ''geometry'' ''thickness'' = Inr H"
    and "getitem2 md ''friction'' ''C'' = Inr C"
    and "getitem2 md ''materials'' ''rheology_B'' = Inr B"
    and "getitem2 md ''mask'' ''ice_levelset'' = Inr ice"
    and "getitem2 md ''mesh'' ''vertexonboundary'' = Inr dbc"
    and "length vx = length vy"
  shows "\<exists>self' w'. ISSMmdData_load_data w self = Done (self', w')"
  using assms
  by (simp add: ISSMmdData_load_data_def Let_def loadmat_def getitem_def load_md_def
      set_X_dict_def set_data_dict_def set_mask_dict_def per_second_def vel_of_def np_add_def
      update_conv)

end
